theory Spec2Isabelle
  imports Complex_Main "HOL-Library.AList"
begin

section \<open>The WOPI bridge (wopibridge.py) and its CodiMD adapter (codimd.py)\<close>

text \<open>
  Conventions of the embedding.
  \<^item> A Python \<open>str\<close> is represented by its UTF-8 bytes, a \<open>bytes\<close> value by its bytes:
    both are \<open>string\<close> (a list of 8-bit characters). \<open>encode()\<close> is then the identity and
    \<open>decode()\<close> is the UTF-8 validity check. Access tokens and file names are taken to be
    ASCII, so that slicing by characters and by bytes agree.
  \<^item> A Python \<open>dict\<close> is an association list with distinct keys, in insertion order.
  \<^item> An exception is a value of \<open>pyerr\<close>; a function that can raise returns \<open>pyerr + 'a\<close>.
  \<^item> The private names of the source lose their leading underscore
    (\<open>_intersection\<close> is \<open>intersection\<close>); a name that clashes with a constant of HOL
    gets a suffix.
  \<^item> The WOPI client library (\<open>wopiclient\<close>), the HTTP library, the clock, the random
    generator, the hash functions and the ZIP reader are outside the two source files:
    they are parameters (fields of the records \<open>world\<close> and \<open>appworld\<close>). Every call
    to the outside appends an event to a log, and the answer of the outside may depend on
    the number of events so far, so that two calls of the same operation may answer
    differently.
\<close>

subsection \<open>Exceptions\<close>

datatype excarg = NoArg | IntArg int | StrArg string

datatype pyerr =
    TypeError
  | KeyError string
  | ValueError excarg
  | AttributeError string
  | UnicodeDecodeError
  | AppFailure
  | InvalidLock string
  | ConnectionError
  | OtherError string

subsection \<open>Library functions of Python used by the source\<close>

text \<open>\<open>functools.reduce(f, xs)\<close> with no initial value: \<open>TypeError\<close> on the empty list.\<close>

definition reduce :: "('a \<Rightarrow> 'a \<Rightarrow> 'a) \<Rightarrow> 'a list \<Rightarrow> pyerr + 'a" where
  "reduce f xs = (case xs of [] \<Rightarrow> Inl TypeError | x # r \<Rightarrow> Inr (foldl f x r))"

text \<open>\<open>s.split(c)\<close> for a one-character separator; the result is never empty.\<close>

fun split_on :: "char \<Rightarrow> string \<Rightarrow> string list" where
  "split_on c [] = [[]]"
| "split_on c (x # xs) =
     (if x = c then [] # split_on c xs
      else (case split_on c xs of [] \<Rightarrow> [[x]] | w # ws \<Rightarrow> (x # w) # ws))"

text \<open>\<open>s[-n:]\<close>: the last \<open>n\<close> characters, the whole string when it is shorter.\<close>

definition last_chars :: "nat \<Rightarrow> string \<Rightarrow> string" where
  "last_chars n s = drop (length s - n) s"

text \<open>\<open>s.index(sub)\<close>: the position of the first occurrence, \<open>ValueError\<close> when there is none.\<close>

fun index_of :: "string \<Rightarrow> string \<Rightarrow> nat option" where
  "index_of sub [] = (if sub = [] then Some 0 else None)"
| "index_of sub (c # cs) =
     (if take (length sub) (c # cs) = sub then Some 0
      else map_option Suc (index_of sub cs))"

text \<open>
  \<open>s.replace(old, new)\<close> for a non-empty \<open>old\<close>: every occurrence, left to right,
  not overlapping. The first argument counts the characters of a match still to skip.
\<close>

fun replace_from :: "nat \<Rightarrow> string \<Rightarrow> string \<Rightarrow> string \<Rightarrow> string" where
  "replace_from k old new [] = []"
| "replace_from k old new (c # cs) =
     (if 0 < k then replace_from (k - 1) old new cs
      else if take (length old) (c # cs) = old then new @ replace_from (length old - 1) old new cs
      else c # replace_from 0 old new cs)"

definition replace :: "string \<Rightarrow> string \<Rightarrow> string \<Rightarrow> string" where
  "replace old new s = replace_from 0 old new s"

text \<open>
  \<open>os.path.splitext(p)\<close> (posixpath): the extension starts at the last dot of the last
  path component, unless that component has only dots before it.
\<close>

definition rfind :: "char \<Rightarrow> string \<Rightarrow> nat option" where
  "rfind c p = (case filter (\<lambda>i. p ! i = c) (rev [0..<length p]) of [] \<Rightarrow> None | i # _ \<Rightarrow> Some i)"

definition splitext :: "string \<Rightarrow> string \<times> string" where
  "splitext p =
     (case rfind (CHR ''.'') p of
        None \<Rightarrow> (p, [])
      | Some dotIndex \<Rightarrow>
          (let filenameIndex = (case rfind (CHR ''/'') p of None \<Rightarrow> 0 | Some sepIndex \<Rightarrow> sepIndex + 1)
           in if filenameIndex \<le> dotIndex
                 \<and> list_ex (\<lambda>i. p ! i \<noteq> CHR ''.'') [filenameIndex..<dotIndex]
              then (take dotIndex p, drop dotIndex p)
              else (p, [])))"

text \<open>
  \<open>int(x)\<close> for \<open>x\<close> the value of an environment variable or of a header: \<open>TypeError\<close>
  for \<open>None\<close>, \<open>ValueError\<close> for a string that is not a decimal literal (optional
  surrounding whitespace, an optional sign, digits with single underscores between them).
\<close>

definition is_digit :: "char \<Rightarrow> bool" where
  "is_digit c = (48 \<le> (of_char c :: nat) \<and> (of_char c :: nat) \<le> 57)"

definition is_space :: "char \<Rightarrow> bool" where
  "is_space c = ((of_char c :: nat) = 32 \<or> (9 \<le> (of_char c :: nat) \<and> (of_char c :: nat) \<le> 13)
                 \<or> (28 \<le> (of_char c :: nat) \<and> (of_char c :: nat) \<le> 31))"

fun digits_val :: "nat \<Rightarrow> string \<Rightarrow> nat option" where
  "digits_val acc [] = Some acc"
| "digits_val acc (c # cs) =
     (if is_digit c then digits_val (10 * acc + ((of_char c :: nat) - 48)) cs
      else if c = CHR ''_'' \<and> cs \<noteq> [] \<and> is_digit (hd cs) then digits_val acc cs
      else None)"

definition unsigned_val :: "string \<Rightarrow> nat option" where
  "unsigned_val s = (case s of [] \<Rightarrow> None | c # cs \<Rightarrow> if is_digit c then digits_val 0 s else None)"

definition strip :: "string \<Rightarrow> string" where
  "strip s = rev (dropWhile is_space (rev (dropWhile is_space s)))"

definition py_int :: "string option \<Rightarrow> pyerr + int" where
  "py_int x =
     (case x of
        None \<Rightarrow> Inl TypeError
      | Some s \<Rightarrow>
          (case strip s of
             [] \<Rightarrow> Inl (ValueError (StrArg s))
           | c # cs \<Rightarrow>
               (if c = CHR ''-'' then
                  (case unsigned_val cs of None \<Rightarrow> Inl (ValueError (StrArg s)) | Some n \<Rightarrow> Inr (- int n))
                else if c = CHR ''+'' then
                  (case unsigned_val cs of None \<Rightarrow> Inl (ValueError (StrArg s)) | Some n \<Rightarrow> Inr (int n))
                else
                  (case unsigned_val (c # cs) of None \<Rightarrow> Inl (ValueError (StrArg s)) | Some n \<Rightarrow> Inr (int n)))))"

text \<open>\<open>int(t)\<close> for a clock reading \<open>t\<close>: truncation towards zero.\<close>

definition int_of_time :: "rat \<Rightarrow> int" where
  "int_of_time t = (if 0 \<le> t then \<lfloor>t\<rfloor> else \<lceil>t\<rceil>)"

text \<open>
  \<open>base64.urlsafe_b64encode\<close>: three bytes give four characters of the URL-safe
  alphabet, and a last group of one or two bytes is padded with \<open>=\<close>.
\<close>

definition b64_alphabet :: string where
  "b64_alphabet = ''ABCDEFGHIJKLMNOPQRSTUVWXYZabcdefghijklmnopqrstuvwxyz0123456789-_''"

definition b64_char :: "nat \<Rightarrow> char" where
  "b64_char i = b64_alphabet ! (i mod 64)"

fun urlsafe_b64encode :: "string \<Rightarrow> string" where
  "urlsafe_b64encode [] = []"
| "urlsafe_b64encode [a] =
     (let n = of_char a * 65536
      in [b64_char (n div 262144), b64_char (n div 4096), CHR ''='', CHR ''=''])"
| "urlsafe_b64encode [a, b] =
     (let n = of_char a * 65536 + of_char b * 256
      in [b64_char (n div 262144), b64_char (n div 4096), b64_char (n div 64), CHR ''=''])"
| "urlsafe_b64encode (a # b # c # rest) =
     (let n = of_char a * 65536 + of_char b * 256 + of_char c
      in [b64_char (n div 262144), b64_char (n div 4096), b64_char (n div 64), b64_char n]
         @ urlsafe_b64encode rest)"

subsection \<open>wopibridge.py: configuration (WB.init)\<close>

text \<open>
  The two intervals as \<open>WB.init\<close> leaves them. \<open>unlockinterval\<close> is a class attribute that
  exists only once it has been assigned: \<open>None\<close> stands for the missing attribute, and
  reading it raises \<open>AttributeError\<close>. Any exception of \<open>init\<close> other than the two
  caught \<open>TypeError\<close>s is fatal (\<open>sys.exit(22)\<close>): the model returns it.
\<close>

record config =
  saveinterval :: int
  unlockinterval :: "int option"

definition init_intervals :: "(string \<rightharpoonup> string) \<Rightarrow> pyerr + config" where
  "init_intervals environ =
     (case (case py_int (environ ''APP_SAVE_INTERVAL'') of
              Inl TypeError \<Rightarrow> Inr 200
            | Inl e \<Rightarrow> Inl e
            | Inr n \<Rightarrow> Inr n) of
        Inl e \<Rightarrow> Inl e
      | Inr si \<Rightarrow>
          (case py_int (environ ''APP_UNLOCK_INTERVAL'') of
             Inr n \<Rightarrow> Inr \<lparr>saveinterval = n, unlockinterval = None\<rparr>
           | Inl TypeError \<Rightarrow> Inr \<lparr>saveinterval = si, unlockinterval = Some 90\<rparr>
           | Inl e \<Rightarrow> Inl e))"

definition read_unlockinterval :: "config \<Rightarrow> pyerr + int" where
  "read_unlockinterval c =
     (case unlockinterval c of None \<Rightarrow> Inl (AttributeError ''unlockinterval'') | Some n \<Rightarrow> Inr n)"

subsection \<open>wopibridge.py: the document id\<close>

text \<open>
  \<open>_gendocid\<close>; \<open>hmac_sha1 key msg\<close> stands for
  \<open>hmac.new(key, msg=msg, digestmod=hashlib.sha1).digest()\<close>.
\<close>

definition gendocid :: "(string \<Rightarrow> string \<Rightarrow> string) \<Rightarrow> string \<Rightarrow> string \<Rightarrow> string" where
  "gendocid hmac_sha1 hashsecret wopisrc =
     butlast (urlsafe_b64encode (hmac_sha1 hashsecret (last (split_on (CHR ''/'') wopisrc))))"

text \<open>The words of the specification: the substring after the final \<open>/\<close>.\<close>

definition last_path_segment :: "string \<Rightarrow> string" where
  "last_path_segment s = rev (takeWhile (\<lambda>c. c \<noteq> CHR ''/'') (rev s))"

subsection \<open>wopibridge.py: the reductions over a map of booleans\<close>

definition intersection :: "(string \<times> bool) list \<Rightarrow> pyerr + bool" where
  "intersection boolsd = reduce (\<lambda>x y. x \<and> y) (map snd boolsd)"

definition union_d :: "(string \<times> bool) list \<Rightarrow> pyerr + bool" where
  "union_d boolsd = reduce (\<lambda>x y. x \<or> y) (map snd boolsd)"

subsection \<open>wopibridge.py: the state of the bridge\<close>

text \<open>
  An entry of \<open>WB.openfiles\<close>. \<open>docid\<close> is \<open>None\<close> when \<open>/save\<close> repopulated the entry
  from a request with no \<open>id\<close> argument.
\<close>

record openfile =
  acctok :: string
  tosave :: bool
  lastsave :: int
  toclose :: "(string \<times> bool) list"
  docid :: "string option"

text \<open>The WOPI lock, a JSON object with these five keys.\<close>

record wopilock =
  lock_docid :: string
  lock_filename :: string
  lock_digest :: string
  lock_app :: string
  lock_toclose :: "(string \<times> bool) list"

text \<open>The fields of the WOPI file metadata that the source reads.\<close>

record filemd =
  BaseFileName :: string
  FileName :: string
  UserCanWrite :: bool
  UserFriendlyName :: string

text \<open>
  A value of \<open>WB.saveresponses\<close>. The source comments the map as holding pairs of a
  message and an HTTP code; as the map is an untyped \<open>dict\<close>, it holds whatever is
  assigned to it, and \<open>savedirty\<close> also assigns a lock.
\<close>

datatype saved = Response string nat | LockValue wopilock

text \<open>What a Flask view returns to the client of \<open>/open\<close>.\<close>

datatype reply = Page string nat | Redirect string

text \<open>The calls to the outside, in the order they are made.\<close>

datatype event =
    Clock
  | GetFileInfo string string
  | GetLock string string
  | Relock string string "string option" bool
  | RefreshLock string string wopilock "string option" "(string \<times> bool) list option"
  | Lock string string wopilock
  | Unlock string string wopilock
  | PluginLoad string filemd string string "string option"
  | PluginSave string string string bool wopilock
  | PluginRedirect string bool string string wopilock string
  | Notify

record wb =
  conf :: config
  hashsecret :: string
  openfiles :: "(string \<times> openfile) list"
  saveresponses :: "(string \<times> saved) list"
  events :: "event list"

text \<open>
  The outside of the bridge. The first argument of an operation is the number of events
  before the call. \<open>InvalidLock m\<close> carries \<open>str(e)\<close> of the exception. The plugin
  operations take the name of the plugin module first; a plugin that failed to initialise
  is \<open>None\<close> in \<open>WB.plugins\<close>, and calling it is one of the errors the operation may
  return.
\<close>

record world =
  clock :: "nat \<Rightarrow> rat"
  getlock :: "nat \<Rightarrow> string \<Rightarrow> string \<Rightarrow> pyerr + wopilock"
  relock :: "nat \<Rightarrow> string \<Rightarrow> string \<Rightarrow> string option \<Rightarrow> bool \<Rightarrow> pyerr + wopilock"
  refreshlock :: "nat \<Rightarrow> string \<Rightarrow> string \<Rightarrow> wopilock \<Rightarrow> string option
                  \<Rightarrow> (string \<times> bool) list option \<Rightarrow> pyerr + wopilock"
  request_getfileinfo :: "nat \<Rightarrow> string \<Rightarrow> string \<Rightarrow> pyerr + nat \<times> filemd"
  request_lock :: "nat \<Rightarrow> string \<Rightarrow> string \<Rightarrow> wopilock \<Rightarrow> pyerr + nat"
  request_unlock :: "nat \<Rightarrow> string \<Rightarrow> string \<Rightarrow> wopilock \<Rightarrow> pyerr + nat"
  jsonify :: "string \<Rightarrow> string"
  plugin_loadfromstorage :: "nat \<Rightarrow> string \<Rightarrow> filemd \<Rightarrow> string \<Rightarrow> string \<Rightarrow> string option
                             \<Rightarrow> pyerr + wopilock"
  plugin_savetostorage :: "nat \<Rightarrow> string \<Rightarrow> string \<Rightarrow> string \<Rightarrow> bool \<Rightarrow> wopilock
                           \<Rightarrow> pyerr + string \<times> nat"
  plugin_getredirecturl :: "nat \<Rightarrow> string \<Rightarrow> bool \<Rightarrow> string \<Rightarrow> string \<Rightarrow> wopilock \<Rightarrow> string
                            \<Rightarrow> pyerr + string"
  hmac_sha1 :: "string \<Rightarrow> string \<Rightarrow> string"
  quote_plus :: "string \<Rightarrow> string"

definition BRIDGE_EXT_PLUGINS :: "(string \<times> string) list" where
  "BRIDGE_EXT_PLUGINS =
     [(''md'', ''codimd''), (''zmd'', ''codimd''), (''mds'', ''codimd''), (''epd'', ''etherpad'')]"

definition RECOVER_MSG :: string where
  "RECOVER_MSG =
     ''Please copy the content to a safe place and reopen the document again to paste it back.''"

definition guireturn :: "string \<Rightarrow> string" where
  "guireturn msg =
     ''<div align=\"center\" style=\"color:#808080; padding-top:50px; font-family:Verdana\">''
     @ msg @ ''</div>''"

definition now :: "wb \<Rightarrow> nat" where
  "now s = length (events s)"

definition emit :: "event \<Rightarrow> wb \<Rightarrow> wb" where
  "emit ev s = s\<lparr>events := events s @ [ev]\<rparr>"

text \<open>\<open>time.time()\<close>.\<close>

definition read_clock :: "world \<Rightarrow> wb \<Rightarrow> rat \<times> wb" where
  "read_clock w s = (clock w (now s), emit Clock s)"

definition is_InvalidLock :: "pyerr \<Rightarrow> bool" where
  "is_InvalidLock e = (case e of InvalidLock m \<Rightarrow> True | _ \<Rightarrow> False)"

text \<open>\<open>str(e)\<close> for the exception of a lock operation.\<close>

definition err_str :: "pyerr \<Rightarrow> string" where
  "err_str e = (case e of InvalidLock m \<Rightarrow> m | _ \<Rightarrow> [])"

text \<open>\<open>acctok[-20:]\<close>.\<close>

definition shorttok :: "string \<Rightarrow> string" where
  "shorttok tok = last_chars 20 tok"

text \<open>\<open>del d[k]\<close> on the registry: \<open>KeyError\<close> when the key is not there.\<close>

definition del_openfile :: "string \<Rightarrow> wb \<Rightarrow> pyerr + wb" where
  "del_openfile wopisrc s =
     (case map_of (openfiles s) wopisrc of
        None \<Rightarrow> Inl (KeyError wopisrc)
      | Some f \<Rightarrow> Inr (s\<lparr>openfiles := AList.delete wopisrc (openfiles s)\<rparr>))"

definition set_saveresponse :: "string \<Rightarrow> saved \<Rightarrow> wb \<Rightarrow> wb" where
  "set_saveresponse wopisrc r s = s\<lparr>saveresponses := AList.update wopisrc r (saveresponses s)\<rparr>"

text \<open>\<open>try: del WB.saveresponses[wopisrc] except KeyError: pass\<close>.\<close>

definition clear_saveresponse :: "string \<Rightarrow> wb \<Rightarrow> wb" where
  "clear_saveresponse wopisrc s = s\<lparr>saveresponses := AList.delete wopisrc (saveresponses s)\<rparr>"

text \<open>Equality of two dictionaries (association lists with distinct keys).\<close>

definition dict_eq :: "(string \<times> bool) list \<Rightarrow> (string \<times> bool) list \<Rightarrow> bool" where
  "dict_eq a b = (set a = set b)"

subsection \<open>wopibridge.py: /save\<close>

text \<open>
  \<open>appsave\<close>. The arguments are the request: the URL-decoded header
  \<open>X-EFSS-Metadata\<close> (\<open>None\<close> when it is missing) and the query arguments \<open>close\<close> and
  \<open>id\<close>. The result is the new state and what the view returns.
\<close>

definition malformed :: "world \<Rightarrow> saved" where
  "malformed w =
     Response (jsonify w (''Malformed or missing metadata, could not save. '' @ RECOVER_MSG)) 500"

definition appsave_donotify :: "world \<Rightarrow> wb \<Rightarrow> string \<Rightarrow> bool \<Rightarrow> bool \<times> wb" where
  "appsave_donotify w s wopisrc isclose =
     (if isclose then (True, s)
      else (case map_of (openfiles s) wopisrc of
              None \<Rightarrow> (True, s)
            | Some f \<Rightarrow>
                (let (t, s1) = read_clock w s
                 in (of_int (lastsave f) < t - of_int (saveinterval (conf s)), s1))))"

definition appsave_enqueue :: "world \<Rightarrow> wb \<Rightarrow> string \<Rightarrow> string \<Rightarrow> bool \<Rightarrow> string option \<Rightarrow> wb" where
  "appsave_enqueue w s wopisrc tok isclose did =
     (case map_of (openfiles s) wopisrc of
        Some f \<Rightarrow>
          s\<lparr>openfiles := AList.update wopisrc
               (f\<lparr>tosave := True, toclose := AList.update (shorttok tok) isclose (toclose f)\<rparr>)
               (openfiles s)\<rparr>
      | None \<Rightarrow>
          (let (t, s1) = read_clock w s
           in clear_saveresponse wopisrc
                (s1\<lparr>openfiles := AList.update wopisrc
                      \<lparr>acctok = tok, tosave = True,
                       lastsave = int_of_time (t - of_int (saveinterval (conf s))),
                       toclose = [(shorttok tok, isclose)], docid = did\<rparr>
                      (openfiles s1)\<rparr>)))"

definition appsave_respond :: "wb \<Rightarrow> string \<Rightarrow> wb \<times> (pyerr + saved)" where
  "appsave_respond s wopisrc =
     (case map_of (saveresponses s) wopisrc of
        Some resp \<Rightarrow> (clear_saveresponse wopisrc s, Inr resp)
      | None \<Rightarrow> (s, Inr (Response ''{}'' 202)))"

definition appsave :: "world \<Rightarrow> wb \<Rightarrow> string option \<Rightarrow> string option \<Rightarrow> string option
                       \<Rightarrow> wb \<times> (pyerr + saved)" where
  "appsave w s metadata close_arg id_arg =
     (case metadata of
        None \<Rightarrow> (s, Inr (malformed w))
      | Some meta \<Rightarrow>
          (case index_of ''?t='' meta of
             None \<Rightarrow> (s, Inr (malformed w))
           | Some i \<Rightarrow>
               (let wopisrc = take i meta;
                    tok = drop (i + 3) meta;
                    isclose = (close_arg = Some ''true'');
                    (donotify, s1) = appsave_donotify w s wopisrc isclose;
                    s2 = appsave_enqueue w s1 wopisrc tok isclose id_arg;
                    s3 = (if donotify then emit Notify s2 else s2)
                in appsave_respond s3 wopisrc)))"

subsection \<open>wopibridge.py: the save thread\<close>

text \<open>
  The three phases of \<open>SaveThread\<close> work on \<open>openfile\<close>, the dictionary that the
  registry held for \<open>wopisrc\<close> when the round took its snapshot. They take and return the
  pair of the bridge state and that object; \<open>commit\<close> makes the object's contents
  visible in the registry as long as the registry still has the key (nothing adds a key
  during a round, so a key that is present still refers to the object). An exception
  leaves the mutations made before it in place, so a phase returns the pair also when it
  raises.
\<close>

definition commit :: "string \<Rightarrow> wb \<times> openfile \<Rightarrow> wb" where
  "commit wopisrc sf =
     (case map_of (openfiles (fst sf)) wopisrc of
        None \<Rightarrow> fst sf
      | Some old \<Rightarrow> (fst sf)\<lparr>openfiles := AList.update wopisrc (snd sf) (openfiles (fst sf))\<rparr>)"

text \<open>The condition of \<open>savedirty\<close>, with the short-circuit evaluation of \<open>and\<close> and \<open>or\<close>.\<close>

definition savedirty_due :: "world \<Rightarrow> wb \<Rightarrow> openfile \<Rightarrow> wb \<times> (pyerr + bool)" where
  "savedirty_due w s f =
     (if \<not> tosave f then (s, Inr False)
      else (case intersection (toclose f) of
              Inl e \<Rightarrow> (s, Inl e)
            | Inr allclosed \<Rightarrow>
                (if allclosed then (s, Inr True)
                 else (let (t, s1) = read_clock w s
                       in (s1, Inr (of_int (lastsave f) < t - of_int (saveinterval (conf s))))))))"

text \<open>Lines 395 to 406: the dispatch to the plugin that the lock names.\<close>

definition savedirty_dispatch :: "world \<Rightarrow> string \<Rightarrow> wb \<times> openfile \<Rightarrow> wopilock
                                  \<Rightarrow> (wb \<times> openfile) \<times> (pyerr + wopilock option)" where
  "savedirty_dispatch w wopisrc sf wopilock =
     (let s = fst sf; f = snd sf
      in case map_of BRIDGE_EXT_PLUGINS (lock_app wopilock) of
           None \<Rightarrow>
             ((set_saveresponse wopisrc
                 (Response (jsonify w ''Unrecognized app for this file'') 400) s, f),
              Inr (Some wopilock))
         | Some app \<Rightarrow>
             (case intersection (toclose f) of
                Inl e \<Rightarrow> ((s, f), Inl e)
              | Inr isclose \<Rightarrow>
                  (let s1 = emit (PluginSave app wopisrc (acctok f) isclose wopilock) s
                   in case plugin_savetostorage w (now s) app wopisrc (acctok f) isclose wopilock of
                        Inl e \<Rightarrow> ((s1, f), Inl e)
                      | Inr resp \<Rightarrow>
                          (let s2 = set_saveresponse wopisrc (Response (fst resp) (snd resp)) s1;
                               (t, s3) = read_clock w s2
                           in ((s3, f\<lparr>lastsave := int_of_time t, tosave := False\<rparr>),
                               Inr (Some wopilock))))))"

text \<open>Lines 380 to 394: the handler of \<open>InvalidLock\<close> from \<open>getlock\<close>.\<close>

definition savedirty_relock :: "world \<Rightarrow> string \<Rightarrow> wb \<times> openfile
                                \<Rightarrow> (wb \<times> openfile) \<times> (pyerr + wopilock option)" where
  "savedirty_relock w wopisrc sf =
     (let s = fst sf; f = snd sf
      in case intersection (toclose f) of
           Inl e \<Rightarrow> ((s, f), Inl e)
         | Inr isclose \<Rightarrow>
             (let s1 = emit (Relock wopisrc (acctok f) (docid f) isclose) s
              in case relock w (now s) wopisrc (acctok f) (docid f) isclose of
                   Inr wopilock \<Rightarrow>
                     savedirty_dispatch w wopisrc
                       (set_saveresponse wopisrc (LockValue wopilock) s1, f) wopilock
                 | Inl ile \<Rightarrow>
                     (if is_InvalidLock ile then
                        (let s2 = set_saveresponse wopisrc
                                    (Response (jsonify w (err_str ile)) 500) s1;
                             (t, s3) = read_clock w s2
                         in ((s3, f\<lparr>lastsave := int_of_time t, tosave := False,
                                     toclose := [(''invalid-lock'', True)]\<rparr>),
                             Inr None))
                      else ((s1, f), Inl ile))))"

definition savedirty :: "world \<Rightarrow> string \<Rightarrow> wb \<times> openfile
                         \<Rightarrow> (wb \<times> openfile) \<times> (pyerr + wopilock option)" where
  "savedirty w wopisrc sf =
     (let f = snd sf
      in case savedirty_due w (fst sf) f of
           (s1, Inl e) \<Rightarrow> ((s1, f), Inl e)
         | (s1, Inr due) \<Rightarrow>
             (if \<not> due then ((s1, f), Inr None)
              else (let s2 = emit (GetLock wopisrc (acctok f)) s1
                    in case getlock w (now s1) wopisrc (acctok f) of
                         Inr wopilock \<Rightarrow> savedirty_dispatch w wopisrc (s2, f) wopilock
                       | Inl e \<Rightarrow>
                           (if is_InvalidLock e then savedirty_relock w wopisrc (s2, f)
                            else ((s2, f), Inl e)))))"

definition closewhenidle :: "world \<Rightarrow> string \<Rightarrow> wb \<times> openfile \<Rightarrow> wopilock option
                             \<Rightarrow> (wb \<times> openfile) \<times> (pyerr + wopilock option)" where
  "closewhenidle w wopisrc sf wopilock =
     (let f = snd sf; (t, s1) = read_clock w (fst sf)
      in if lastsave f < int_of_time t - 4 * saveinterval (conf s1) then
           (case wopilock of
              Some l \<Rightarrow> ((s1, f\<lparr>toclose := map (\<lambda>kv. (fst kv, True)) (toclose f)\<rparr>), Inr (Some l))
            | None \<Rightarrow>
                (let s2 = emit (GetLock wopisrc (acctok f)) s1
                 in case getlock w (now s1) wopisrc (acctok f) of
                      Inr l \<Rightarrow>
                        ((s2, f\<lparr>toclose := map (\<lambda>kv. (fst kv, True)) (toclose f)\<rparr>), Inr (Some l))
                    | Inl e \<Rightarrow>
                        (if is_InvalidLock e then
                           (case del_openfile wopisrc s2 of
                              Inl e' \<Rightarrow> ((s2, f), Inl e')
                            | Inr s3 \<Rightarrow> ((s3, f), Inr None))
                         else ((s2, f), Inl e))))
         else ((s1, f), Inr wopilock))"

text \<open>Lines 439 to 456 of \<open>cleanup\<close>: the reconciliation with the lock and what follows.\<close>

definition reconcile :: "(string \<times> bool) list \<Rightarrow> (string \<times> bool) list \<Rightarrow> (string \<times> bool) list" where
  "reconcile locktoclose mine =
     map (\<lambda>kv. (fst kv, snd kv \<or> (case map_of mine (fst kv) of None \<Rightarrow> False | Some b \<Rightarrow> b)))
       locktoclose"

definition cleanup_unlock :: "world \<Rightarrow> string \<Rightarrow> wb \<times> openfile \<Rightarrow> wopilock
                              \<Rightarrow> (wb \<times> openfile) \<times> (pyerr + unit)" where
  "cleanup_unlock w wopisrc sf wopilock =
     (let f = snd sf; (t, s1) = read_clock w (fst sf)
      in case read_unlockinterval (conf s1) of
           Inl e \<Rightarrow> ((s1, f), Inl e)
         | Inr ui \<Rightarrow>
             (if lastsave f < int_of_time t - ui then
                (let s2 = emit (Unlock wopisrc (acctok f) wopilock) s1
                 in case request_unlock w (now s1) wopisrc (acctok f) wopilock of
                      Inl e \<Rightarrow> ((s2, f), Inl e)
                    | Inr status \<Rightarrow>
                        (case del_openfile wopisrc s2 of
                           Inl e \<Rightarrow> ((s2, f), Inl e)
                         | Inr s3 \<Rightarrow> ((s3, f), Inr ())))
              else ((s1, f), Inr ())))"

definition cleanup_reconcile :: "world \<Rightarrow> string \<Rightarrow> wb \<times> openfile \<Rightarrow> wopilock
                                 \<Rightarrow> (wb \<times> openfile) \<times> (pyerr + unit)" where
  "cleanup_reconcile w wopisrc sf wopilock =
     (let s = fst sf;
          f = (snd sf)\<lparr>toclose := reconcile (lock_toclose wopilock) (toclose (snd sf))\<rparr>
      in case intersection (toclose f) of
           Inl e \<Rightarrow> ((s, f), Inl e)
         | Inr allclosed \<Rightarrow>
             (if allclosed then cleanup_unlock w wopisrc (s, f) wopilock
              else if \<not> dict_eq (toclose f) (lock_toclose wopilock) then
                (let s1 = emit (RefreshLock wopisrc (acctok f) wopilock None (Some (toclose f))) s
                 in case refreshlock w (now s) wopisrc (acctok f) wopilock None (Some (toclose f)) of
                      Inl e \<Rightarrow> ((s1, f), Inl e)
                    | Inr l \<Rightarrow> ((s1, f), Inr ()))
              else ((s, f), Inr ())))"

text \<open>Lines 431 to 437: the handler of \<open>InvalidLock\<close> in \<open>cleanup\<close>.\<close>

definition cleanup_nolock :: "world \<Rightarrow> string \<Rightarrow> wb \<times> openfile \<Rightarrow> (wb \<times> openfile) \<times> (pyerr + unit)" where
  "cleanup_nolock w wopisrc sf =
     (let f = snd sf; (t, s1) = read_clock w (fst sf)
      in case read_unlockinterval (conf s1) of
           Inl e \<Rightarrow> ((s1, f), Inl e)
         | Inr ui \<Rightarrow>
             (if of_int (lastsave f) < t - of_int ui then
                (case del_openfile wopisrc s1 of
                   Inl e \<Rightarrow> ((s1, f), Inl e)
                 | Inr s2 \<Rightarrow> ((s2, f), Inr ()))
              else ((s1, f), Inr ())))"

definition cleanup :: "world \<Rightarrow> string \<Rightarrow> wb \<times> openfile \<Rightarrow> wopilock option
                       \<Rightarrow> (wb \<times> openfile) \<times> (pyerr + unit)" where
  "cleanup w wopisrc sf wopilock =
     (let s = fst sf; f = snd sf
      in case union_d (toclose f) of
           Inl e \<Rightarrow> ((s, f), Inl e)
         | Inr anyclosed \<Rightarrow>
             (if anyclosed \<and> \<not> tosave f then
                (case wopilock of
                   Some l \<Rightarrow> cleanup_reconcile w wopisrc (s, f) l
                 | None \<Rightarrow>
                     (let s1 = emit (GetLock wopisrc (acctok f)) s
                      in case getlock w (now s) wopisrc (acctok f) of
                           Inr l \<Rightarrow> cleanup_reconcile w wopisrc (s1, f) l
                         | Inl e \<Rightarrow>
                             (if is_InvalidLock e then cleanup_nolock w wopisrc (s1, f)
                              else ((s1, f), Inl e))))
              else ((s, f), Inr ())))"

text \<open>
  The body of the loop of \<open>SaveThread.run\<close> for one entry of the snapshot: the three
  phases under the handler that catches every exception. The result is the bridge state
  and the exception that the handler caught, if any.
\<close>

definition cycle_doc :: "world \<Rightarrow> string \<Rightarrow> wb \<times> openfile \<Rightarrow> wb \<times> pyerr option" where
  "cycle_doc w wopisrc sf =
     (case savedirty w wopisrc sf of
        (sf1, Inl e) \<Rightarrow> (commit wopisrc sf1, Some e)
      | (sf1, Inr wopilock1) \<Rightarrow>
          (case closewhenidle w wopisrc sf1 wopilock1 of
             (sf2, Inl e) \<Rightarrow> (commit wopisrc sf2, Some e)
           | (sf2, Inr wopilock2) \<Rightarrow>
               (case cleanup w wopisrc sf2 wopilock2 of
                  (sf3, Inl e) \<Rightarrow> (commit wopisrc sf3, Some e)
                | (sf3, Inr u) \<Rightarrow> (commit wopisrc sf3, None))))"

text \<open>One round over the snapshot \<open>list(WB.openfiles.items())\<close>.\<close>

definition save_round :: "world \<Rightarrow> wb \<Rightarrow> wb" where
  "save_round w s = foldl (\<lambda>s' item. fst (cycle_doc w (fst item) (s', snd item))) s (openfiles s)"

subsection \<open>wopibridge.py: /open\<close>

text \<open>
  \<open>appopen\<close>. The arguments are the query arguments \<open>WOPISrc\<close> (URL-decoded) and
  \<open>access_token\<close>, \<open>None\<close> when missing, and the platform of the user agent. An exception
  that no handler of the view catches is returned as \<open>Inl\<close> (Flask's error handler turns
  it into a 500 page).
\<close>

text \<open>
  Lines 234 to 243, the handler of \<open>InvalidLock\<close>: load the document into the app and lock
  it. \<open>reason\<close> is \<open>str(e)\<close>. The result is the final \<open>UserCanWrite\<close> and the lock.
\<close>

definition appopen_fetch :: "world \<Rightarrow> wb \<Rightarrow> string \<Rightarrow> filemd \<Rightarrow> string \<Rightarrow> string \<Rightarrow> string
                             \<Rightarrow> wb \<times> (pyerr + bool \<times> wopilock)" where
  "appopen_fetch w s app md wopisrc tok reason =
     (let md1 = (if reason \<noteq> ''404'' then md\<lparr>UserCanWrite := False\<rparr> else md);
          did = Some (gendocid (hmac_sha1 w) (hashsecret s) wopisrc);
          s1 = emit (PluginLoad app md1 wopisrc tok did) s
      in case plugin_loadfromstorage w (now s) app md1 wopisrc tok did of
           Inl e \<Rightarrow> (s1, Inl e)
         | Inr wopilock \<Rightarrow>
             (let s2 = emit (Lock wopisrc tok wopilock) s1
              in case request_lock w (now s1) wopisrc tok wopilock of
                   Inl e \<Rightarrow> (s2, Inl e)
                 | Inr status \<Rightarrow>
                     (s2, Inr (if status \<noteq> 200 then False else UserCanWrite md1, wopilock))))"

text \<open>Lines 221 to 243: the lock held already, or the handler above.\<close>

definition appopen_lock :: "world \<Rightarrow> wb \<Rightarrow> string \<Rightarrow> filemd \<Rightarrow> string \<Rightarrow> string
                            \<Rightarrow> wb \<times> (pyerr + bool \<times> wopilock)" where
  "appopen_lock w s app md wopisrc tok =
     (let s1 = emit (GetLock wopisrc tok) s
      in case getlock w (now s) wopisrc tok of
           Inl e \<Rightarrow>
             (if is_InvalidLock e then appopen_fetch w s1 app md wopisrc tok (err_str e)
              else (s1, Inl e))
         | Inr wopilock \<Rightarrow>
             (if map_of (lock_toclose wopilock) (shorttok tok) = None then
                (let s2 = emit (RefreshLock wopisrc tok wopilock None None) s1
                 in case refreshlock w (now s1) wopisrc tok wopilock None None of
                      Inl e \<Rightarrow>
                        (if is_InvalidLock e then appopen_fetch w s2 app md wopisrc tok (err_str e)
                         else (s2, Inl e))
                    | Inr wopilock' \<Rightarrow> (s2, Inr (UserCanWrite md, wopilock')))
              else (s1, Inr (UserCanWrite md, wopilock))))"

text \<open>Lines 245 to 260: the registry keeps track of the open document.\<close>

definition appopen_track :: "world \<Rightarrow> wb \<Rightarrow> string \<Rightarrow> string \<Rightarrow> wopilock \<Rightarrow> wb" where
  "appopen_track w s wopisrc tok wopilock =
     clear_saveresponse wopisrc
       (case map_of (openfiles s) wopisrc of
          Some f \<Rightarrow>
            s\<lparr>openfiles := AList.update wopisrc
                 (f\<lparr>acctok := tok, toclose := lock_toclose wopilock\<rparr>) (openfiles s)\<rparr>
        | None \<Rightarrow>
            (let (t, s1) = read_clock w s
             in s1\<lparr>openfiles := AList.update wopisrc
                     \<lparr>acctok = tok, tosave = False,
                      lastsave = int_of_time t - saveinterval (conf s),
                      toclose = [(shorttok tok, False)],
                      docid = Some (lock_docid wopilock)\<rparr>
                     (openfiles s1)\<rparr>))"

text \<open>Lines 218 to 266: the body of the outer \<open>try\<close>, before its handler.\<close>

definition appopen_load :: "world \<Rightarrow> wb \<Rightarrow> string \<Rightarrow> filemd \<Rightarrow> string \<Rightarrow> string
                            \<Rightarrow> wb \<times> (pyerr + bool \<times> wopilock)" where
  "appopen_load w s app md wopisrc tok =
     (if UserCanWrite md then
        (case appopen_lock w s app md wopisrc tok of
           (s1, Inl e) \<Rightarrow> (s1, Inl e)
         | (s1, Inr r) \<Rightarrow> (appopen_track w s1 wopisrc tok (snd r), Inr r))
      else
        (let s1 = emit (PluginLoad app md wopisrc tok None) s
         in case plugin_loadfromstorage w (now s) app md wopisrc tok None of
              Inl e \<Rightarrow> (s1, Inl e)
            | Inr wopilock \<Rightarrow> (s1, Inr (False, wopilock))))"

definition displayname :: "world \<Rightarrow> filemd \<Rightarrow> string option \<Rightarrow> string" where
  "displayname w md platform =
     quote_plus w (UserFriendlyName md @ ''@'' @
       (case platform of None \<Rightarrow> ''oth'' | Some p \<Rightarrow> if p = [] then ''oth'' else take 3 p))"

definition appopen :: "world \<Rightarrow> wb \<Rightarrow> string option \<Rightarrow> string option \<Rightarrow> string option
                       \<Rightarrow> wb \<times> (pyerr + reply)" where
  "appopen w s wopisrc_arg token_arg platform =
     (case wopisrc_arg of
        None \<Rightarrow> (s, Inr (Page (guireturn ''Missing arguments'') 400))
      | Some wopisrc \<Rightarrow>
     (case token_arg of
        None \<Rightarrow> (s, Inr (Page (guireturn ''Missing arguments'') 400))
      | Some tok \<Rightarrow>
          (let s1 = emit (GetFileInfo wopisrc tok) s
           in case request_getfileinfo w (now s) wopisrc tok of
                Inl e \<Rightarrow> (s1, Inl e)
              | Inr res \<Rightarrow>
                  (if fst res \<noteq> 200 then (s1, Inr (Page (guireturn ''Invalid WOPI context'') 404))
                   else
                     (case map_of BRIDGE_EXT_PLUGINS (drop 1 (snd (splitext (BaseFileName (snd res))))) of
                        None \<Rightarrow> (s1, Inr (Page (guireturn ''File type not supported'') 400))
                      | Some app \<Rightarrow>
                          (case appopen_load w s1 app (snd res) wopisrc tok of
                             (s2, Inl e) \<Rightarrow>
                               (if e = AppFailure then
                                  (s2, Inr (Page (guireturn
                                    ''Unable to load the app, please try again later or contact support'') 500))
                                else (s2, Inl e))
                           | (s2, Inr r) \<Rightarrow>
                               (let dn = displayname w (snd res) platform;
                                    s3 = emit (PluginRedirect app (fst r) wopisrc tok (snd r) dn) s2
                                in case plugin_getredirecturl w (now s2) app (fst r) wopisrc tok (snd r) dn of
                                     Inl e \<Rightarrow> (s3, Inl e)
                                   | Inr url \<Rightarrow> (s3, Inr (Redirect url)))))))))"

subsection \<open>The states the bridge can reach\<close>

text \<open>
  The bridge starts with an empty registry and an empty map of responses, whatever its
  configuration; a step is a request to \<open>/open\<close>, a request to \<open>/save\<close>, the save
  thread's work on one entry of the registry, or a whole round of the save thread.
\<close>

inductive reachable :: "world \<Rightarrow> wb \<Rightarrow> bool" for w :: world where
  start: "openfiles s = [] \<Longrightarrow> saveresponses s = [] \<Longrightarrow> reachable w s"
| by_open: "reachable w s \<Longrightarrow> reachable w (fst (appopen w s wopisrc_arg token_arg platform))"
| by_save: "reachable w s \<Longrightarrow> reachable w (fst (appsave w s metadata close_arg id_arg))"
| by_cycle: "reachable w s \<Longrightarrow> map_of (openfiles s) wopisrc = Some f
             \<Longrightarrow> reachable w (fst (cycle_doc w wopisrc (s, f)))"
| by_round: "reachable w s \<Longrightarrow> reachable w (save_round w s)"

text \<open>Every record of the registry has a non-empty \<open>toclose\<close>.\<close>

definition toclose_nonempty :: "wb \<Rightarrow> bool" where
  "toclose_nonempty s = list_all (\<lambda>item. toclose (snd item) \<noteq> []) (openfiles s)"

text \<open>
  The assumption on the outside under which that holds: a lock that the WOPI client or a
  plugin hands to the bridge names at least one participant (for \<open>refreshlock\<close>, when it
  is called without a \<open>toclose\<close> argument, as \<open>/open\<close> calls it to add a token).
\<close>

definition lock_result_ok :: "pyerr + wopilock \<Rightarrow> bool" where
  "lock_result_ok r = (case r of Inl e \<Rightarrow> True | Inr l \<Rightarrow> lock_toclose l \<noteq> [])"

definition locks_name_someone :: "world \<Rightarrow> bool" where
  "locks_name_someone w =
     ((\<forall>n a b. lock_result_ok (getlock w n a b))
      \<and> (\<forall>n a b c d. lock_result_ok (relock w n a b c d))
      \<and> (\<forall>n a b l c. lock_result_ok (refreshlock w n a b l c None))
      \<and> (\<forall>n p m a b c. lock_result_ok (plugin_loadfromstorage w n p m a b c)))"

text \<open>
  The same for a registry as a list, and what a phase of the save thread maintains: the
  registry is fine, the object that the phase works on has a non-empty \<open>toclose\<close>, and
  the lock that the phase passes on names a participant.
\<close>

definition files_ok :: "(string \<times> openfile) list \<Rightarrow> bool" where
  "files_ok al = list_all (\<lambda>item. toclose (snd item) \<noteq> []) al"

definition phase_ok :: "wb \<times> openfile \<Rightarrow> bool" where
  "phase_ok sf = (files_ok (openfiles (fst sf)) \<and> toclose (snd sf) \<noteq> [])"

definition lock_opt_ok :: "pyerr + wopilock option \<Rightarrow> bool" where
  "lock_opt_ok r = (case r of Inr (Some l) \<Rightarrow> lock_toclose l \<noteq> [] | _ \<Rightarrow> True)"

subsection \<open>codimd.py: the outside of the adapter\<close>

text \<open>
  \<open>bytes.decode()\<close>: the strict UTF-8 decoder of Python (no overlong forms, no
  surrogates, nothing above U+10FFFF). As a \<open>str\<close> is represented by its UTF-8 bytes, a
  successful decode returns the bytes themselves.
\<close>

definition cont :: "nat \<Rightarrow> bool" where
  "cont b = (128 \<le> b \<and> b \<le> 191)"

fun utf8_ok :: "nat list \<Rightarrow> bool" where
  "utf8_ok [] = True"
| "utf8_ok [b] = (b < 128)"
| "utf8_ok [b, c1] = (if b < 128 then utf8_ok [c1] else 194 \<le> b \<and> b \<le> 223 \<and> cont c1)"
| "utf8_ok [b, c1, c2] =
     (if b < 128 then utf8_ok [c1, c2]
      else if 194 \<le> b \<and> b \<le> 223 then cont c1 \<and> utf8_ok [c2]
      else if b = 224 then 160 \<le> c1 \<and> c1 \<le> 191 \<and> cont c2
      else if b = 237 then 128 \<le> c1 \<and> c1 \<le> 159 \<and> cont c2
      else 225 \<le> b \<and> b \<le> 239 \<and> cont c1 \<and> cont c2)"
| "utf8_ok (b # c1 # c2 # c3 # r) =
     (if b < 128 then utf8_ok (c1 # c2 # c3 # r)
      else if 194 \<le> b \<and> b \<le> 223 then cont c1 \<and> utf8_ok (c2 # c3 # r)
      else if b = 224 then 160 \<le> c1 \<and> c1 \<le> 191 \<and> cont c2 \<and> utf8_ok (c3 # r)
      else if b = 237 then 128 \<le> c1 \<and> c1 \<le> 159 \<and> cont c2 \<and> utf8_ok (c3 # r)
      else if 225 \<le> b \<and> b \<le> 239 then cont c1 \<and> cont c2 \<and> utf8_ok (c3 # r)
      else if b = 240 then 144 \<le> c1 \<and> c1 \<le> 191 \<and> cont c2 \<and> cont c3 \<and> utf8_ok r
      else if b = 244 then 128 \<le> c1 \<and> c1 \<le> 143 \<and> cont c2 \<and> cont c3 \<and> utf8_ok r
      else 241 \<le> b \<and> b \<le> 243 \<and> cont c1 \<and> cont c2 \<and> cont c3 \<and> utf8_ok r)"

definition decode :: "string \<Rightarrow> pyerr + string" where
  "decode b = (if utf8_ok (map of_char b) then Inr b else Inl UnicodeDecodeError)"

text \<open>
  \<open>upload_re.findall\<close> for the pattern \<open>\/uploads\/upload_\w{32}\.\w+\<close>: the matches from
  left to right, not overlapping. \<open>\w\<close> is taken on ASCII (letters, digits, underscore).
\<close>

definition is_word :: "char \<Rightarrow> bool" where
  "is_word c =
     (let n = (of_char c :: nat)
      in (48 \<le> n \<and> n \<le> 57) \<or> (65 \<le> n \<and> n \<le> 90) \<or> (97 \<le> n \<and> n \<le> 122) \<or> n = 95)"

definition match_upload :: "string \<Rightarrow> string option" where
  "match_upload s =
     (let p = ''/uploads/upload_''; r = drop (length p) s; h = take 32 r; t = drop 32 r;
          ext = takeWhile is_word (drop 1 t)
      in if take (length p) s = p \<and> length h = 32 \<and> list_all is_word h
            \<and> take 1 t = ''.'' \<and> ext \<noteq> []
         then Some (p @ h @ ''.'' @ ext) else None)"

fun findall_from :: "nat \<Rightarrow> string \<Rightarrow> string list" where
  "findall_from k [] = []"
| "findall_from k (c # cs) =
     (if 0 < k then findall_from (k - 1) cs
      else (case match_upload (c # cs) of
              Some m \<Rightarrow> m # findall_from (length m - 1) cs
            | None \<Rightarrow> findall_from 0 cs))"

definition upload_re_findall :: "string \<Rightarrow> string list" where
  "upload_re_findall s = findall_from 0 s"

text \<open>The body of a request to storage: nothing, the document, or a ZIP of entries.\<close>

datatype body = NoBody | Plain string | Bundle "(string \<times> string) list"

text \<open>The calls of the adapter to the outside, in the order they are made.\<close>

datatype appevent =
    WopiGetFile string string
  | WopiPutFile string string wopilock body
  | WopiRefreshLock string string wopilock string
  | WopiSaveAs string string wopilock string body
  | HeadUpload string
  | PostUploadImage string string
  | PostNew string
  | HeadNote string
  | PutNote string string
  | GetDownload string
  | GetAttachment string
  | RandInt int int

text \<open>
  The outside of the adapter; the first argument of an operation is the number of events
  before the call. An HTTP operation answers with the status code and what the source
  reads of the response: the content, the header \<open>Content-Length\<close> (\<open>None\<close> when absent),
  or the path of the URL the response redirects to. \<open>zip_entries\<close> is
  \<open>zipfile.ZipFile(...).infolist()\<close> with the data of each entry; \<open>randint n a b\<close> is the
  outcome of \<open>randint(a, b)\<close>.
\<close>

record appworld =
  wopi_getfile :: "nat \<Rightarrow> string \<Rightarrow> string \<Rightarrow> pyerr + nat \<times> string"
  wopi_putfile :: "nat \<Rightarrow> string \<Rightarrow> string \<Rightarrow> wopilock \<Rightarrow> body \<Rightarrow> pyerr + nat \<times> string"
  wopi_handleputfile :: "string \<Rightarrow> string \<Rightarrow> nat \<times> string \<Rightarrow> (string \<times> nat) option"
  wopi_refreshlock :: "nat \<Rightarrow> string \<Rightarrow> string \<Rightarrow> wopilock \<Rightarrow> string \<Rightarrow> pyerr + wopilock"
  wopi_saveas :: "nat \<Rightarrow> string \<Rightarrow> string \<Rightarrow> wopilock \<Rightarrow> string \<Rightarrow> body \<Rightarrow> pyerr + string \<times> nat"
  wopi_generatelock :: "string \<Rightarrow> filemd \<Rightarrow> string \<Rightarrow> string \<Rightarrow> string \<Rightarrow> bool \<Rightarrow> wopilock"
  wopi_jsonify :: "string \<Rightarrow> string"
  head_upload :: "nat \<Rightarrow> string \<Rightarrow> pyerr + nat \<times> string option"
  post_uploadimage :: "nat \<Rightarrow> string \<Rightarrow> string \<Rightarrow> pyerr + nat"
  post_new :: "nat \<Rightarrow> string \<Rightarrow> pyerr + nat \<times> string"
  head_note :: "nat \<Rightarrow> string \<Rightarrow> pyerr + nat \<times> string"
  put_note :: "nat \<Rightarrow> string \<Rightarrow> string \<Rightarrow> pyerr + nat"
  get_download :: "nat \<Rightarrow> string \<Rightarrow> pyerr + nat \<times> string"
  get_attachment :: "nat \<Rightarrow> string \<Rightarrow> pyerr + nat \<times> string"
  randint :: "nat \<Rightarrow> int \<Rightarrow> int \<Rightarrow> int"
  zip_entries :: "string \<Rightarrow> pyerr + (string \<times> string) list"
  sha1_hexdigest :: "string \<Rightarrow> string"

text \<open>\<open>except requests.exceptions.ConnectionError: raise AppFailure\<close>.\<close>

definition connection_failure :: "pyerr \<Rightarrow> pyerr" where
  "connection_failure e = (if e = ConnectionError then AppFailure else e)"

subsection \<open>codimd.py: from storage to the app\<close>

text \<open>
  Lines 93 and 94: the new name of an attachment that collides, for the outcome \<open>r\<close> of
  \<open>randint(65, 65+26)\<close>; \<open>chr(r)\<close> is one byte for these outcomes.
\<close>

definition collision_name :: "string \<Rightarrow> int \<Rightarrow> string" where
  "collision_name fname r = fst (splitext fname) @ ''_'' @ [char_of (nat r)] @ snd (splitext fname)"

text \<open>
  Line 96, \<open>mddoc.replace(zipinfo.filename, fname)\<close>: \<open>mddoc\<close> is \<open>None\<close> until the loop has
  met the \<open>.md\<close> entry, and otherwise the \<open>bytes\<close> that \<open>inputzip.read\<close> returned, whose
  \<open>replace\<close> refuses the two \<open>str\<close> arguments.
\<close>

definition replace_reference :: "string option \<Rightarrow> string \<Rightarrow> string \<Rightarrow> pyerr + string option" where
  "replace_reference mddoc old new =
     (case mddoc of None \<Rightarrow> Inl (AttributeError ''replace'') | Some doc \<Rightarrow> Inl TypeError)"

text \<open>
  Line 85: the attachment is in the app already, with the same size. \<open>and\<close> reads the
  header only when the status is 200.
\<close>

definition same_upload :: "nat \<times> string option \<Rightarrow> string \<Rightarrow> pyerr + bool" where
  "same_upload res data =
     (if fst res \<noteq> 200 then Inr False
      else (case snd res of
              None \<Rightarrow> Inl (KeyError ''content-length'')
            | Some v \<Rightarrow>
                (case py_int (Some v) of
                   Inl e \<Rightarrow> Inl e
                 | Inr n \<Rightarrow> Inr (n = int (length data)))))"

text \<open>The loop of \<open>_unzipattachments\<close> over the entries, with the value of \<open>mddoc\<close> so far.\<close>

fun unzip_entries :: "appworld \<Rightarrow> appevent list \<Rightarrow> (string \<times> string) list \<Rightarrow> string option
                      \<Rightarrow> appevent list \<times> (pyerr + string option)" where
  "unzip_entries aw evs [] mddoc = (evs, Inr mddoc)"
| "unzip_entries aw evs (zipinfo # rest) mddoc =
     (let fname = fst zipinfo; data = snd zipinfo
      in if snd (splitext fname) = ''.md'' then unzip_entries aw evs rest (Some data)
         else
           (let evs1 = evs @ [HeadUpload fname]
            in case head_upload aw (length evs) fname of
                 Inl e \<Rightarrow> (evs1, Inl e)
               | Inr res \<Rightarrow>
                   (case same_upload res data of
                      Inl e \<Rightarrow> (evs1, Inl e)
                    | Inr same \<Rightarrow>
                        (if same then unzip_entries aw evs1 rest mddoc
                         else if fst res = 200 then
                           (let evs2 = evs1 @ [RandInt 65 (65 + 26)];
                                fname' = collision_name fname (randint aw (length evs1) 65 (65 + 26))
                            in case replace_reference mddoc fname fname' of
                                 Inl e \<Rightarrow> (evs2, Inl e)
                               | Inr mddoc' \<Rightarrow>
                                   (let evs3 = evs2 @ [PostUploadImage fname' data]
                                    in case post_uploadimage aw (length evs2) fname' data of
                                         Inl e \<Rightarrow> (evs3, Inl e)
                                       | Inr status \<Rightarrow> unzip_entries aw evs3 rest mddoc'))
                         else
                           (let evs2 = evs1 @ [PostUploadImage fname data]
                            in case post_uploadimage aw (length evs1) fname data of
                                 Inl e \<Rightarrow> (evs2, Inl e)
                               | Inr status \<Rightarrow> unzip_entries aw evs2 rest mddoc)))))"

definition unzipattachments :: "appworld \<Rightarrow> appevent list \<Rightarrow> string
                                \<Rightarrow> appevent list \<times> (pyerr + string option)" where
  "unzipattachments aw evs inputbuf =
     (case zip_entries aw inputbuf of
        Inl e \<Rightarrow> (evs, Inl e)
      | Inr infolist \<Rightarrow> unzip_entries aw evs infolist None)"

definition isslides :: "string \<Rightarrow> pyerr + bool" where
  "isslides doc =
     (case decode (take 9 doc) of
        Inl e \<Rightarrow> Inl e
      | Inr a \<Rightarrow>
          (if a = ''---\<newline>title'' then Inr True
           else (case decode (take 8 doc) of
                   Inl e \<Rightarrow> Inl e
                 | Inr b \<Rightarrow>
                     (if b = ''---\<newline>type'' then Inr True
                      else (case decode (take 16 doc) of
                              Inl e \<Rightarrow> Inl e
                            | Inr c \<Rightarrow> Inr (c = ''---\<newline>slideOptions''))))))"

text \<open>Lines 143 to 155: the read-only case, a new note.\<close>

definition load_readonly :: "appworld \<Rightarrow> appevent list \<Rightarrow> string \<Rightarrow> appevent list \<times> (pyerr + string)" where
  "load_readonly aw evs mddoc =
     (let evs1 = evs @ [PostNew mddoc]
      in case post_new aw (length evs) mddoc of
           Inl e \<Rightarrow> (evs1, Inl (connection_failure e))
         | Inr res \<Rightarrow>
             (if fst res \<noteq> 302 then (evs1, Inl AppFailure)
              else (evs1, Inr (last (split_on (CHR ''/'') (snd res))))))"

text \<open>Lines 156 to 185: the given \<open>docid\<close> is reserved and the document pushed.\<close>

definition load_readwrite :: "appworld \<Rightarrow> appevent list \<Rightarrow> string \<Rightarrow> string
                              \<Rightarrow> appevent list \<times> (pyerr + string)" where
  "load_readwrite aw evs mddoc did =
     (let evs1 = evs @ [HeadNote did]
      in case head_note aw (length evs) did of
           Inl e \<Rightarrow> (evs1, Inl (connection_failure e))
         | Inr res \<Rightarrow>
             (if fst res \<noteq> 200 \<and> fst res \<noteq> 302 then (evs1, Inl AppFailure)
              else
                (let did1 = (if fst res = 302 then last (split_on (CHR ''/'') (snd res)) else did)
                 in case decode mddoc of
                      Inl e \<Rightarrow> (evs1, Inl e)
                    | Inr content \<Rightarrow>
                        (let evs2 = evs1 @ [PutNote did1 content]
                         in case put_note aw (length evs1) did1 content of
                              Inl e \<Rightarrow> (evs2, Inl (connection_failure e))
                            | Inr status \<Rightarrow>
                                (if status = 403 then (evs2, Inr did1)
                                 else if status \<noteq> 200 then (evs2, Inl AppFailure)
                                 else (evs2, Inr did1))))))"

text \<open>
  \<open>loadfromstorage\<close>. A bundle with no \<open>.md\<close> entry leaves \<open>mddoc\<close> at \<open>None\<close>, and
  \<open>h.update(None)\<close> raises \<open>TypeError\<close>. \<open>not docid\<close> holds for \<open>None\<close> and for the empty
  string. The arguments of \<open>generatelock\<close> are evaluated in order, \<open>_isslides\<close> last.
\<close>

definition loadfromstorage :: "appworld \<Rightarrow> appevent list \<Rightarrow> filemd \<Rightarrow> string \<Rightarrow> string \<Rightarrow> string option
                               \<Rightarrow> appevent list \<times> (pyerr + wopilock)" where
  "loadfromstorage aw evs md wopisrc tok did =
     (let evs1 = evs @ [WopiGetFile wopisrc tok]
      in case wopi_getfile aw (length evs) wopisrc tok of
           Inl e \<Rightarrow> (evs1, Inl e)
         | Inr res \<Rightarrow>
             (if fst res \<noteq> 200 then (evs1, Inl (ValueError (IntArg (int (fst res)))))
              else
                (case (if snd (splitext (BaseFileName md)) = ''.zmd''
                       then unzipattachments aw evs1 (snd res)
                       else (evs1, Inr (Some (snd res)))) of
                   (evs2, Inl e) \<Rightarrow> (evs2, Inl e)
                 | (evs2, Inr None) \<Rightarrow> (evs2, Inl TypeError)
                 | (evs2, Inr (Some mddoc)) \<Rightarrow>
                     (case (case did of
                              None \<Rightarrow> load_readonly aw evs2 mddoc
                            | Some d \<Rightarrow> if d = [] then load_readonly aw evs2 mddoc
                                        else load_readwrite aw evs2 mddoc d) of
                        (evs3, Inl e) \<Rightarrow> (evs3, Inl e)
                      | (evs3, Inr did1) \<Rightarrow>
                          (case isslides mddoc of
                             Inl e \<Rightarrow> (evs3, Inl e)
                           | Inr slides \<Rightarrow>
                               (evs3, Inr (wopi_generatelock aw did1 md (sha1_hexdigest aw mddoc)
                                             (if slides then ''mds'' else ''md'') tok False)))))))"

subsection \<open>codimd.py: from the app to storage\<close>

definition fetchfromcodimd :: "appworld \<Rightarrow> appevent list \<Rightarrow> wopilock \<Rightarrow> string
                               \<Rightarrow> appevent list \<times> (pyerr + string)" where
  "fetchfromcodimd aw evs wopilock tok =
     (let evs1 = evs @ [GetDownload (lock_docid wopilock)]
      in case get_download aw (length evs) (lock_docid wopilock) of
           Inl e \<Rightarrow> (evs1, Inl (connection_failure e))
         | Inr res \<Rightarrow>
             (if fst res \<noteq> 200 then
                (case decode (snd res) of
                   Inl e \<Rightarrow> (evs1, Inl e)
                 | Inr msg \<Rightarrow> (evs1, Inl AppFailure))
              else (evs1, Inr (snd res))))"

text \<open>
  The loop of \<open>_getattachments\<close> over the references found, with the entries written to
  the ZIP so far and the response to give for a failed fetch.
\<close>

fun fetch_attachments :: "appworld \<Rightarrow> appevent list \<Rightarrow> string list \<Rightarrow> (string \<times> string) list
                          \<Rightarrow> (string \<times> nat) option
                          \<Rightarrow> appevent list \<times> (pyerr + (string \<times> string) list \<times> (string \<times> nat) option)" where
  "fetch_attachments aw evs [] entries response = (evs, Inr (entries, response))"
| "fetch_attachments aw evs (attachment # rest) entries response =
     (let evs1 = evs @ [GetAttachment attachment]
      in case get_attachment aw (length evs) attachment of
           Inl e \<Rightarrow> (evs1, Inl e)
         | Inr res \<Rightarrow>
             (if fst res \<noteq> 200 then
                fetch_attachments aw evs1 rest entries
                  (Some (wopi_jsonify aw ''Failed to include a referenced picture in the saved file'', 404))
              else
                fetch_attachments aw evs1 rest
                  (entries @ [(last (split_on (CHR ''/'') attachment), snd res)]) response))"

definition getattachments :: "appworld \<Rightarrow> appevent list \<Rightarrow> string \<Rightarrow> string \<Rightarrow> bool
     \<Rightarrow> appevent list \<times> (pyerr + (string \<times> string) list option \<times> (string \<times> nat) option)" where
  "getattachments aw evs mddoc docfilename forcezip =
     (case fetch_attachments aw evs (upload_re_findall mddoc) [] None of
        (evs1, Inl e) \<Rightarrow> (evs1, Inl e)
      | (evs1, Inr r) \<Rightarrow>
          (if \<not> forcezip \<and> fst r = [] then (evs1, Inr (None, snd r))
           else (evs1, Inr (Some (fst r @ [(docfilename, mddoc)]), snd r))))"

text \<open>Lines 244 to 258: PutFile in place, then the refresh of the lock.\<close>

definition save_inplace :: "appworld \<Rightarrow> appevent list \<Rightarrow> string \<Rightarrow> string \<Rightarrow> bool \<Rightarrow> wopilock
     \<Rightarrow> string \<Rightarrow> string option \<Rightarrow> body \<Rightarrow> (string \<times> nat) option
     \<Rightarrow> appevent list \<times> (pyerr + string \<times> nat)" where
  "save_inplace aw evs wopisrc tok isclose wopilock mddoc h contents attresponse =
     (let evs1 = evs @ [WopiPutFile wopisrc tok wopilock contents]
      in case wopi_putfile aw (length evs) wopisrc tok wopilock contents of
           Inl e \<Rightarrow> (evs1, Inl e)
         | Inr res \<Rightarrow>
             (case wopi_handleputfile aw ''PutFile'' wopisrc res of
                Some reply \<Rightarrow> (evs1, Inr reply)
              | None \<Rightarrow>
                  (let h1 = (if isclose \<and> lock_digest wopilock = ''dirty''
                             then Some (sha1_hexdigest aw mddoc) else h);
                       digest = (case h1 of Some d \<Rightarrow> d | None \<Rightarrow> ''dirty'');
                       evs2 = evs1 @ [WopiRefreshLock wopisrc tok wopilock digest]
                   in case wopi_refreshlock aw (length evs1) wopisrc tok wopilock digest of
                        Inl e \<Rightarrow> (evs2, Inl e)
                      | Inr wopilock' \<Rightarrow>
                          (evs2, Inr (case attresponse of
                                        Some r \<Rightarrow> r
                                      | None \<Rightarrow> (wopi_jsonify aw ''File saved successfully'', 200))))))"

text \<open>
  \<open>savetostorage\<close>. \<open>h\<close> is the digest of the document when it was computed, \<open>None\<close>
  otherwise. A ZIP that was produced holds the document at least, so \<open>not bundlefile\<close>
  holds exactly when \<open>_getattachments\<close> returned \<open>None\<close>.
\<close>

definition savetostorage :: "appworld \<Rightarrow> appevent list \<Rightarrow> string \<Rightarrow> string \<Rightarrow> bool \<Rightarrow> wopilock
                             \<Rightarrow> appevent list \<times> (pyerr + string \<times> nat)" where
  "savetostorage aw evs wopisrc tok isclose wopilock =
     (case fetchfromcodimd aw evs wopilock tok of
        (evs1, Inl e) \<Rightarrow>
          (if e = AppFailure then
             (evs1, Inr (wopi_jsonify aw ''Could not save file, failed to fetch document from CodiMD'', 500))
           else (evs1, Inl e))
      | (evs1, Inr mddoc) \<Rightarrow>
          (let h = (if isclose \<and> lock_digest wopilock \<noteq> ''dirty''
                    then Some (sha1_hexdigest aw mddoc) else None)
           in if h = Some (lock_digest wopilock) then (evs1, Inr (''{}'', 202))
              else
                (let wasbundle = (snd (splitext (lock_filename wopilock)) = ''.zmd'')
                 in case decode mddoc of
                      Inl e \<Rightarrow> (evs1, Inl e)
                    | Inr text \<Rightarrow>
                        (case getattachments aw evs1 text
                                (replace ''.zmd'' ''.md'' (lock_filename wopilock))
                                (wasbundle \<and> \<not> isclose) of
                           (evs2, Inl e) \<Rightarrow> (evs2, Inl e)
                         | (evs2, Inr r) \<Rightarrow>
                             (let bundlefile = fst r; attresponse = snd r
                              in if (wasbundle \<noteq> (bundlefile = None)) \<or> \<not> isclose then
                                   save_inplace aw evs2 wopisrc tok isclose wopilock mddoc h
                                     (if wasbundle
                                      then (case bundlefile of None \<Rightarrow> NoBody | Some z \<Rightarrow> Bundle z)
                                      else Plain mddoc)
                                     attresponse
                                 else
                                   (let newname = fst (splitext (lock_filename wopilock))
                                                  @ (if bundlefile = None then ''.md'' else ''.zmd'');
                                        contents = (case bundlefile of
                                                      None \<Rightarrow> Plain mddoc | Some z \<Rightarrow> Bundle z)
                                    in (evs2 @ [WopiSaveAs wopisrc tok wopilock newname contents],
                                        wopi_saveas aw (length evs2) wopisrc tok wopilock newname
                                          contents)))))))"

subsection \<open>Observations on the log of events\<close>

definition is_relock :: "event \<Rightarrow> bool" where
  "is_relock ev = (case ev of Relock a b c d \<Rightarrow> True | _ \<Rightarrow> False)"

definition is_pluginsave :: "event \<Rightarrow> bool" where
  "is_pluginsave ev = (case ev of PluginSave a b c d e \<Rightarrow> True | _ \<Rightarrow> False)"

text \<open>The number of calls of \<open>wopi.relock\<close>, and of a plugin's \<open>savetostorage\<close>, so far.\<close>

definition relocks :: "wb \<Rightarrow> nat" where
  "relocks s = length (filter is_relock (events s))"

definition plugin_saves :: "wb \<Rightarrow> nat" where
  "plugin_saves s = length (filter is_pluginsave (events s))"

subsection \<open>Sequences of requests to /save\<close>

text \<open>A request to \<open>/save\<close>: the metadata header and the arguments \<open>close\<close> and \<open>id\<close>.\<close>

type_synonym save_request = "string option \<times> string option \<times> string option"

fun appsave_all :: "world \<Rightarrow> wb \<Rightarrow> save_request list \<Rightarrow> wb" where
  "appsave_all w s [] = s"
| "appsave_all w s (r # rs) = appsave_all w (fst (appsave w s (fst r) (fst (snd r)) (snd (snd r)))) rs"

text \<open>
  The requests that leave the entry of the short token \<open>k\<close> in the record of \<open>wopisrc\<close>
  alone or set it to true: a malformed one, one for another document, one of a token with
  another short token, or one with \<open>close=true\<close>.
\<close>

definition spares :: "string \<Rightarrow> string \<Rightarrow> save_request \<Rightarrow> bool" where
  "spares wopisrc k r =
     (case fst r of
        None \<Rightarrow> True
      | Some meta \<Rightarrow>
          (case index_of ''?t='' meta of
             None \<Rightarrow> True
           | Some i \<Rightarrow>
               (if take i meta = wopisrc \<and> shorttok (drop (i + 3) meta) = k
                then fst (snd r) = Some ''true'' else True)))"

subsection \<open>Sample inputs\<close>

text \<open>
  A stand-in for HMAC-SHA1 with digests of 20 bytes, and an outside world that answers
  every call the same way: \<open>getlock\<close> with \<open>gl\<close>, \<open>relock\<close> with \<open>rl\<close>, a plugin's
  \<open>savetostorage\<close> with \<open>sv\<close>; \<open>refreshlock\<close> succeeds as the WOPI client describes it.
\<close>

definition toy_hmac :: "string \<Rightarrow> string \<Rightarrow> string" where
  "toy_hmac key msg = take 20 (msg @ key @ replicate 20 (CHR ''x''))"

definition sample_md :: filemd where
  "sample_md = \<lparr>BaseFileName = ''notes.md'', FileName = ''/home/notes.md'', UserCanWrite = True,
                UserFriendlyName = ''Ada''\<rparr>"

definition sample_lock :: "(string \<times> bool) list \<Rightarrow> wopilock" where
  "sample_lock tc = \<lparr>lock_docid = ''/doc1'', lock_filename = ''notes.md'', lock_digest = ''dirty'',
                     lock_app = ''md'', lock_toclose = tc\<rparr>"

definition sample_world :: "(pyerr + wopilock) \<Rightarrow> (pyerr + wopilock) \<Rightarrow> (pyerr + string \<times> nat) \<Rightarrow> world" where
  "sample_world gl rl sv =
     \<lparr>clock = (\<lambda>n. 1000 + of_nat n),
      getlock = (\<lambda>n a b. gl),
      relock = (\<lambda>n a b c d. rl),
      refreshlock = (\<lambda>n a b l dg tc.
         Inr (case tc of
                None \<Rightarrow> l\<lparr>lock_toclose := AList.update (shorttok b) False (lock_toclose l)\<rparr>
              | Some t \<Rightarrow> l\<lparr>lock_toclose := t\<rparr>)),
      request_getfileinfo = (\<lambda>n a b. Inr (200, sample_md)),
      request_lock = (\<lambda>n a b l. Inr 200),
      request_unlock = (\<lambda>n a b l. Inr 200),
      jsonify = (\<lambda>m. ''{\"message\": \"'' @ m @ ''\"}''),
      plugin_loadfromstorage = (\<lambda>n p m a b c. Inr (sample_lock [(shorttok b, False)])),
      plugin_savetostorage = (\<lambda>n p a b c l. sv),
      plugin_getredirecturl = (\<lambda>n p rw a b l d. Inr (''https://app'' @ lock_docid l)),
      hmac_sha1 = toy_hmac,
      quote_plus = (\<lambda>x. x)\<rparr>"

definition start_state :: wb where
  "start_state = \<lparr>conf = \<lparr>saveinterval = 200, unlockinterval = Some 90\<rparr>, hashsecret = ''secret'',
                  openfiles = [], saveresponses = [], events = []\<rparr>"

definition sample_file :: "bool \<Rightarrow> openfile" where
  "sample_file closing = \<lparr>acctok = ''tok'', tosave = True, lastsave = 0,
                          toclose = [(''tok'', closing)], docid = Some ''/doc1''\<rparr>"

definition sample_state :: "bool \<Rightarrow> wb" where
  "sample_state closing = start_state\<lparr>openfiles := [(''W'', sample_file closing)]\<rparr>"

text \<open>
  A request to \<open>/save\<close> that closes the sample document, and the outside worlds of the
  examples: one where the lock in storage names a participant, one where it names none.
\<close>

definition close_request :: save_request where
  "close_request = (Some ''W?t=tok'', Some ''true'', Some ''/doc1'')"

definition named_lock_world :: world where
  "named_lock_world =
     sample_world (Inr (sample_lock [(''tok'', True)])) (Inl (InvalidLock ''404'')) (Inr (''{}'', 200))"

definition empty_lock_world :: world where
  "empty_lock_world =
     sample_world (Inr (sample_lock [])) (Inl (InvalidLock ''404'')) (Inr (''{}'', 200))"

definition saved_file :: openfile where
  "saved_file = \<lparr>acctok = ''tok'', tosave = True, lastsave = 800, toclose = [(''tok'', True)],
                 docid = Some ''/doc1''\<rparr>"

text \<open>
  An outside of the adapter that answers every call the same way: storage serves
  \<open>getfile\<close>, the app serves \<open>download\<close> for the document and answers the reservation of
  a note with \<open>headnote\<close>; an attachment \<open>img.png\<close> of another size is in the app already;
  \<open>randint(a, b)\<close> returns \<open>b\<close>; every file read as a ZIP holds a document and \<open>img.png\<close>.
\<close>

definition sample_appworld :: "nat \<times> string \<Rightarrow> nat \<times> string \<Rightarrow> nat \<times> string \<Rightarrow> appworld" where
  "sample_appworld getfile download headnote =
     \<lparr>wopi_getfile = (\<lambda>n a b. Inr getfile),
      wopi_putfile = (\<lambda>n a b l c. Inr (200, [])),
      wopi_handleputfile = (\<lambda>op a res. if fst res = 200 then None else Some (''{}'', fst res)),
      wopi_refreshlock = (\<lambda>n a b l d. Inr (l\<lparr>lock_digest := d\<rparr>)),
      wopi_saveas = (\<lambda>n a b l name c. Inr (''{}'', 200)),
      wopi_generatelock = (\<lambda>d m dg app tok isclose.
         \<lparr>lock_docid = CHR ''/'' # d, lock_filename = BaseFileName m, lock_digest = dg,
          lock_app = app, lock_toclose = [(shorttok tok, isclose)]\<rparr>),
      wopi_jsonify = (\<lambda>m. ''{\"message\": \"'' @ m @ ''\"}''),
      head_upload = (\<lambda>n f. Inr (200, Some ''5'')),
      post_uploadimage = (\<lambda>n f d. Inr 200),
      post_new = (\<lambda>n d. Inr (302, ''/newnote'')),
      head_note = (\<lambda>n d. Inr headnote),
      put_note = (\<lambda>n d c. Inr 200),
      get_download = (\<lambda>n d. Inr download),
      get_attachment = (\<lambda>n a. Inr (200, ''PNGDATA'')),
      randint = (\<lambda>n a b. b),
      zip_entries = (\<lambda>buf. Inr [(''doc.md'', ''![](img.png)''), (''img.png'', ''PNGDATA'')]),
      sha1_hexdigest = (\<lambda>b. ''sha1-of-'' @ b)\<rparr>"

definition bundle_md :: filemd where
  "bundle_md = \<lparr>BaseFileName = ''notes.zmd'', FileName = ''/home/notes.zmd'', UserCanWrite = True,
                UserFriendlyName = ''Ada''\<rparr>"

text \<open>A document that is not UTF-8: the byte 0xFF.\<close>

definition not_utf8 :: string where
  "not_utf8 = [CHR 0xFF]"

text \<open>A bridge whose plugin fails to load a read-only document with \<open>ValueError(404)\<close>.\<close>

definition failing_load_world :: world where
  "failing_load_world =
     named_lock_world
       \<lparr>request_getfileinfo := (\<lambda>n a b. Inr (200, sample_md\<lparr>UserCanWrite := False\<rparr>)),
        plugin_loadfromstorage := (\<lambda>n p m a b c. Inl (ValueError (IntArg 404)))\<rparr>"

section \<open>Properties\<close>

subsection \<open>The document id\<close>

lemma split_on_no_sep: "c \<notin> set s \<Longrightarrow> split_on c s = [s]"
  by (induction s) auto

lemma split_on_not_Nil: "split_on c s \<noteq> []"
  by (induction s) (auto split: list.splits)

lemma split_on_sep_two: "\<exists>u v ws. split_on c (a @ c # b) = u # v # ws"
proof (induction a)
  case Nil
  show ?case using split_on_not_Nil[of c b] by (cases "split_on c b") auto
next
  case (Cons x a)
  then show ?case by (auto split: list.splits)
qed

lemma last_split_on_sep: "c \<notin> set b \<Longrightarrow> last (split_on c (a @ c # b)) = b"
proof (induction a)
  case Nil
  then show ?case by (simp add: split_on_no_sep)
next
  case (Cons x a)
  from split_on_sep_two[of c a b] obtain u v ws where "split_on c (a @ c # b) = u # v # ws"
    by blast
  with Cons show ?case by auto
qed

lemma last_split_on: "last (split_on (CHR ''/'') s) = last_path_segment s"
proof (cases "CHR ''/'' \<in> set s")
  case False
  then have h: "takeWhile (\<lambda>c. c \<noteq> CHR ''/'') (rev s) = rev s"
    by (simp add: takeWhile_eq_all_conv) metis
  show ?thesis
    unfolding last_path_segment_def h using False by (simp add: split_on_no_sep)
next
  case True
  then obtain a b where s: "s = a @ CHR ''/'' # b" and b: "CHR ''/'' \<notin> set b"
    by (meson split_list_last)
  have "takeWhile (\<lambda>c. c \<noteq> CHR ''/'') (rev b @ CHR ''/'' # rev a) = rev b"
    using b by (simp add: takeWhile_append)
  then show ?thesis
    using b by (simp add: s last_split_on_sep last_path_segment_def)
qed

lemma b64_char_not_pad: "b64_char i \<noteq> CHR ''=''"
proof -
  have "b64_char i \<in> set b64_alphabet"
    unfolding b64_char_def by (rule nth_mem) (simp add: b64_alphabet_def)
  moreover have "CHR ''='' \<notin> set b64_alphabet"
    by (simp add: b64_alphabet_def)
  ultimately show ?thesis by metis
qed

lemma b64_one_pad:
  "length xs mod 3 = 2 \<Longrightarrow> \<exists>ys. urlsafe_b64encode xs = ys @ ''='' \<and> CHR ''='' \<notin> set ys"
proof (induction xs rule: urlsafe_b64encode.induct)
  case (4 a b c rest)
  then obtain ys where "urlsafe_b64encode rest = ys @ ''=''" "CHR ''='' \<notin> set ys"
    by auto
  then show ?case
    using b64_char_not_pad[symmetric] by (auto simp: Let_def)
qed (use b64_char_not_pad[symmetric] in \<open>auto simp: Let_def\<close>)

text \<open>
  Claim C8. \<open>_gendocid\<close> is a function of the secret and of the last path segment of
  \<open>wopisrc\<close> only (the substring after the final \<open>/\<close>): it is the URL-safe base64 text of
  the HMAC-SHA1 of that segment without its last character, two sources with the same
  last segment get the same identifier, and for a digest of 20 bytes the character left
  out is the one padding character \<open>=\<close> of the encoding.
\<close>

theorem gendocid_last_segment:
  "gendocid h secret w = butlast (urlsafe_b64encode (h secret (last_path_segment w)))
   \<and> (last_path_segment w = last_path_segment w' \<longrightarrow> gendocid h secret w = gendocid h secret w')
   \<and> (length (h secret (last_path_segment w)) = 20 \<longrightarrow>
        urlsafe_b64encode (h secret (last_path_segment w)) = gendocid h secret w @ ''=''
        \<and> CHR ''='' \<notin> set (gendocid h secret w))"
proof -
  have eq: "\<And>x. gendocid h secret x = butlast (urlsafe_b64encode (h secret (last_path_segment x)))"
    by (simp add: gendocid_def last_split_on)
  have pad: "urlsafe_b64encode (h secret (last_path_segment w)) = gendocid h secret w @ ''=''
        \<and> CHR ''='' \<notin> set (gendocid h secret w)"
    if "length (h secret (last_path_segment w)) = 20"
  proof -
    from that have "length (h secret (last_path_segment w)) mod 3 = 2" by simp
    from b64_one_pad[OF this] obtain ys where
      "urlsafe_b64encode (h secret (last_path_segment w)) = ys @ ''=''" "CHR ''='' \<notin> set ys"
      by blast
    then show ?thesis by (simp add: eq)
  qed
  show ?thesis using eq pad by simp
qed

theorem gendocid_last_segment_witness:
  "last_path_segment ''https://efss/wopi/files/4711'' = last_path_segment ''other/4711''
   \<and> length (toy_hmac ''secret'' (last_path_segment ''https://efss/wopi/files/4711'')) = 20
   \<and> gendocid toy_hmac ''secret'' ''https://efss/wopi/files/4711'' = gendocid toy_hmac ''secret'' ''other/4711''
   \<and> CHR ''='' \<notin> set (gendocid toy_hmac ''secret'' ''https://efss/wopi/files/4711'')"
proof -
  have seg: "last_path_segment ''https://efss/wopi/files/4711'' = last_path_segment ''other/4711''"
    by (simp add: last_path_segment_def)
  have len: "length (toy_hmac ''secret'' (last_path_segment ''https://efss/wopi/files/4711'')) = 20"
    by (simp add: last_path_segment_def toy_hmac_def)
  from gendocid_last_segment [of toy_hmac "''secret''" "''https://efss/wopi/files/4711''" "''other/4711''"]
    seg len
  show ?thesis by blast
qed

subsection \<open>The calls that the save thread makes\<close>

lemmas sample_defs = sample_world_def sample_state_def sample_file_def start_state_def sample_lock_def
  sample_md_def close_request_def named_lock_world_def empty_lock_world_def saved_file_def

lemmas eval_defs = savedirty_def savedirty_due_def savedirty_relock_def savedirty_dispatch_def
  closewhenidle_def cleanup_def cleanup_reconcile_def cleanup_unlock_def cleanup_nolock_def
  cycle_doc_def commit_def reconcile_def dict_eq_def
  read_clock_def now_def emit_def is_InvalidLock_def err_str_def set_saveresponse_def
  clear_saveresponse_def del_openfile_def read_unlockinterval_def int_of_time_def
  intersection_def union_d_def reduce_def BRIDGE_EXT_PLUGINS_def shorttok_def last_chars_def
  appsave_def appsave_donotify_def appsave_enqueue_def appsave_respond_def malformed_def Let_def

lemma events_emit [simp]: "events (emit ev s) = events s @ [ev]"
  by (simp add: emit_def)

lemma events_set_saveresponse [simp]: "events (set_saveresponse x r s) = events s"
  by (simp add: set_saveresponse_def)

lemma events_clear_saveresponse [simp]: "events (clear_saveresponse x s) = events s"
  by (simp add: clear_saveresponse_def)

lemma events_read_clock [simp]: "events (snd (read_clock w s)) = events s @ [Clock]"
  by (simp add: read_clock_def)

lemma events_commit [simp]: "events (commit x sf) = events (fst sf)"
  by (simp add: commit_def split: option.splits)

lemma events_del_openfile: "del_openfile x s = Inr s' \<Longrightarrow> events s' = events s"
  by (auto simp: del_openfile_def split: option.splits)

lemma relocks_simps [simp]:
  "relocks (emit ev s) = relocks s + (if is_relock ev then 1 else 0)"
  "relocks (set_saveresponse x r s) = relocks s"
  "relocks (clear_saveresponse x s) = relocks s"
  "relocks (snd (read_clock w s)) = relocks s"
  "relocks (commit x sf) = relocks (fst sf)"
  by (simp_all add: relocks_def is_relock_def)

lemma plugin_saves_simps [simp]:
  "plugin_saves (emit ev s) = plugin_saves s + (if is_pluginsave ev then 1 else 0)"
  "plugin_saves (set_saveresponse x r s) = plugin_saves s"
  "plugin_saves (clear_saveresponse x s) = plugin_saves s"
  "plugin_saves (snd (read_clock w s)) = plugin_saves s"
  "plugin_saves (commit x sf) = plugin_saves (fst sf)"
  by (simp_all add: plugin_saves_def is_pluginsave_def)

lemma counts_del_openfile:
  "del_openfile x s = Inr s' \<Longrightarrow> relocks s' = relocks s \<and> plugin_saves s' = plugin_saves s"
  by (auto simp: del_openfile_def relocks_def plugin_saves_def split: option.splits)

lemma is_event_simps [simp]:
  "\<not> is_relock Clock" "\<not> is_relock (GetLock a b)" "\<not> is_relock (PluginSave p a b c l)"
  "\<not> is_relock (Unlock a b l)" "\<not> is_relock (RefreshLock a b l d t)" "is_relock (Relock a b e c)"
  "\<not> is_pluginsave Clock" "\<not> is_pluginsave (GetLock a b)" "is_pluginsave (PluginSave p a b c l)"
  "\<not> is_pluginsave (Unlock a b l)" "\<not> is_pluginsave (RefreshLock a b l d t)"
  "\<not> is_pluginsave (Relock a b e c)"
  by (simp_all add: is_relock_def is_pluginsave_def)

lemma savedirty_due_counts:
  "relocks (fst (savedirty_due w s f)) = relocks s"
  "plugin_saves (fst (savedirty_due w s f)) = plugin_saves s"
  by (auto simp: savedirty_due_def split_beta split: sum.splits)

lemma savedirty_dispatch_relocks:
  "relocks (fst (fst (savedirty_dispatch w x sf l))) = relocks (fst sf)"
  by (auto simp: savedirty_dispatch_def Let_def split_beta split: sum.splits option.splits)

lemma savedirty_relock_relocks:
  "relocks (fst (fst (savedirty_relock w x sf))) \<le> relocks (fst sf) + 1"
  by (auto simp: savedirty_relock_def Let_def savedirty_dispatch_relocks split_beta split: sum.splits)

lemma savedirty_relocks:
  "relocks (fst (fst (savedirty w x sf))) \<le> relocks (fst sf) + 1"
proof (cases "savedirty_due w (fst sf) (snd sf)")
  case (Pair s1 r)
  have s1: "relocks s1 = relocks (fst sf)"
    using savedirty_due_counts(1)[of w "fst sf" "snd sf"] Pair by simp
  show ?thesis
    using savedirty_relock_relocks[of w x "(emit (GetLock x (acctok (snd sf))) s1, snd sf)"] s1
    by (auto simp: savedirty_def Let_def Pair savedirty_dispatch_relocks split: sum.splits)
qed

lemma closewhenidle_counts:
  "relocks (fst (fst (closewhenidle w x sf l))) = relocks (fst sf)"
  "plugin_saves (fst (fst (closewhenidle w x sf l))) = plugin_saves (fst sf)"
  by (auto simp: closewhenidle_def Let_def split_beta
           split: sum.splits option.splits dest!: counts_del_openfile)

lemma cleanup_unlock_counts:
  "relocks (fst (fst (cleanup_unlock w x sf l))) = relocks (fst sf)"
  "plugin_saves (fst (fst (cleanup_unlock w x sf l))) = plugin_saves (fst sf)"
  by (auto simp: cleanup_unlock_def Let_def split_beta
           split: sum.splits option.splits dest!: counts_del_openfile)

lemma cleanup_nolock_counts:
  "relocks (fst (fst (cleanup_nolock w x sf))) = relocks (fst sf)"
  "plugin_saves (fst (fst (cleanup_nolock w x sf))) = plugin_saves (fst sf)"
  by (auto simp: cleanup_nolock_def Let_def split_beta
           split: sum.splits option.splits dest!: counts_del_openfile)

lemma cleanup_reconcile_counts:
  "relocks (fst (fst (cleanup_reconcile w x sf l))) = relocks (fst sf)"
  "plugin_saves (fst (fst (cleanup_reconcile w x sf l))) = plugin_saves (fst sf)"
  by (auto simp: cleanup_reconcile_def Let_def cleanup_unlock_counts split: sum.splits)

lemma cleanup_counts:
  "relocks (fst (fst (cleanup w x sf l))) = relocks (fst sf)"
  "plugin_saves (fst (fst (cleanup w x sf l))) = plugin_saves (fst sf)"
  by (auto simp: cleanup_def Let_def cleanup_reconcile_counts cleanup_nolock_counts
           split: sum.splits option.splits)

lemma cycle_doc_relocks:
  "relocks (fst (cycle_doc w x sf)) \<le> relocks (fst sf) + 1"
proof -
  obtain sf1 r1 where 1: "savedirty w x sf = (sf1, r1)" by (cases "savedirty w x sf")
  have le: "relocks (fst sf1) \<le> relocks (fst sf) + 1"
    using savedirty_relocks[of w x sf] 1 by simp
  show ?thesis
  proof (cases r1)
    case (Inl e)
    with 1 le show ?thesis by (simp add: cycle_doc_def)
  next
    case (Inr l1)
    obtain sf2 r2 where 2: "closewhenidle w x sf1 l1 = (sf2, r2)" by (cases "closewhenidle w x sf1 l1")
    have e2: "relocks (fst sf2) = relocks (fst sf1)"
      using closewhenidle_counts(1)[of w x sf1 l1] 2 by simp
    show ?thesis
    proof (cases r2)
      case (Inl e)
      with 1 2 Inr le e2 show ?thesis by (simp add: cycle_doc_def)
    next
      case (Inr l2)
      obtain sf3 r3 where 3: "cleanup w x sf2 l2 = (sf3, r3)" by (cases "cleanup w x sf2 l2")
      have e3: "relocks (fst sf3) = relocks (fst sf2)"
        using cleanup_counts(1)[of w x sf2 l2] 3 by simp
      from 1 2 3 \<open>r1 = Inr l1\<close> Inr le e2 e3 show ?thesis
        by (cases r3) (simp_all add: cycle_doc_def)
    qed
  qed
qed


lemma cycle_doc_after_savedirty_None:
  assumes "savedirty w x sf = (sf1, Inr None)"
  shows "plugin_saves (fst (cycle_doc w x sf)) = plugin_saves (fst sf1)"
proof -
  obtain sf2 r2 where 2: "closewhenidle w x sf1 None = (sf2, r2)" by (cases "closewhenidle w x sf1 None")
  have e2: "plugin_saves (fst sf2) = plugin_saves (fst sf1)"
    using closewhenidle_counts(2)[of w x sf1 None] 2 by simp
  show ?thesis
  proof (cases r2)
    case (Inl e)
    with assms 2 e2 show ?thesis by (simp add: cycle_doc_def)
  next
    case (Inr l2)
    obtain sf3 r3 where 3: "cleanup w x sf2 l2 = (sf3, r3)" by (cases "cleanup w x sf2 l2")
    have e3: "plugin_saves (fst sf3) = plugin_saves (fst sf2)"
      using cleanup_counts(2)[of w x sf2 l2] 3 by simp
    from assms 2 3 Inr e2 e3 show ?thesis
      by (cases r3) (simp_all add: cycle_doc_def)
  qed
qed

lemma savedirty_second_failure:
  assumes due: "tosave f" "intersection (toclose f) = Inr isclose"
      "isclose \<or> of_int (lastsave f) < clock w (now s) - of_int (saveinterval (conf s))"
    and n: "n = now s + (if isclose then 0 else 1)"
    and gl: "getlock w n wopisrc (acctok f) = Inl (InvalidLock r)"
    and rl: "relock w (n + 1) wopisrc (acctok f) (docid f) isclose = Inl (InvalidLock m)"
  shows "\<exists>s'. savedirty w wopisrc (s, f) =
            ((s', f\<lparr>lastsave := int_of_time (clock w (n + 2)), tosave := False,
                      toclose := [(''invalid-lock'', True)]\<rparr>), Inr None)
          \<and> saveresponses s' = AList.update wopisrc (Response (jsonify w m) 500) (saveresponses s)
          \<and> openfiles s' = openfiles s
          \<and> relocks s' = relocks s + 1 \<and> plugin_saves s' = plugin_saves s"
proof (cases isclose)
  case True
  with due n gl rl show ?thesis
    by (simp add: savedirty_def savedirty_due_def savedirty_relock_def Let_def read_clock_def
        now_def is_InvalidLock_def err_str_def set_saveresponse_def emit_def
        relocks_def plugin_saves_def is_relock_def is_pluginsave_def)
next
  case False
  with due n gl rl show ?thesis
    by (simp add: savedirty_def savedirty_due_def savedirty_relock_def Let_def read_clock_def
        now_def is_InvalidLock_def err_str_def set_saveresponse_def emit_def
        relocks_def plugin_saves_def is_relock_def is_pluginsave_def)
qed

text \<open>
  Claim C5. The record \<open>f\<close> of \<open>wopisrc\<close> is due for a save (\<open>tosave\<close> is set and either
  all participants have closed or the last save is older than the save interval), \<open>getlock\<close>
  raises \<open>InvalidLock\<close> and the one call of \<open>relock\<close> raises \<open>InvalidLock\<close> with message
  \<open>m\<close>. Then \<open>savedirty\<close> returns no lock, the map of responses holds the JSON of \<open>m\<close>
  with status 500 for \<open>wopisrc\<close>, the record has \<open>tosave\<close> cleared and its \<open>toclose\<close>
  replaced by the sentinel, \<open>relock\<close> has been called once, and no plugin's
  \<open>savetostorage\<close> is called in the whole cycle of the document. Whatever the outside
  answers, a cycle of one document calls \<open>relock\<close> at most once.
\<close>

theorem savedirty_invalid_lock_relock_once:
  assumes reg: "map_of (openfiles s) wopisrc = Some f"
    and due: "tosave f" "intersection (toclose f) = Inr isclose"
      "isclose \<or> of_int (lastsave f) < clock w (now s) - of_int (saveinterval (conf s))"
    and n: "n = now s + (if isclose then 0 else 1)"
    and gl: "getlock w n wopisrc (acctok f) = Inl (InvalidLock r)"
    and rl: "relock w (n + 1) wopisrc (acctok f) (docid f) isclose = Inl (InvalidLock m)"
  shows "(\<exists>s' f'. savedirty w wopisrc (s, f) = ((s', f'), Inr None)
            \<and> map_of (saveresponses s') wopisrc = Some (Response (jsonify w m) 500)
            \<and> tosave f' = False
            \<and> toclose f' = [(''invalid-lock'', True)]
            \<and> map_of (openfiles (commit wopisrc (s', f'))) wopisrc = Some f'
            \<and> relocks s' = relocks s + 1
            \<and> plugin_saves s' = plugin_saves s)
         \<and> relocks (fst (cycle_doc w wopisrc (s, f))) \<le> relocks s + 1
         \<and> plugin_saves (fst (cycle_doc w wopisrc (s, f))) = plugin_saves s"
proof -
  from savedirty_second_failure[OF due n gl rl] obtain s' where
    sd: "savedirty w wopisrc (s, f) =
            ((s', f\<lparr>lastsave := int_of_time (clock w (n + 2)), tosave := False,
                      toclose := [(''invalid-lock'', True)]\<rparr>), Inr None)"
    and sr: "saveresponses s' = AList.update wopisrc (Response (jsonify w m) 500) (saveresponses s)"
    and op: "openfiles s' = openfiles s"
    and c: "relocks s' = relocks s + 1" "plugin_saves s' = plugin_saves s"
    by blast
  have "map_of (saveresponses s') wopisrc = Some (Response (jsonify w m) 500)"
    by (simp add: sr update_conv')
  moreover have "map_of (openfiles (commit wopisrc (s', f\<lparr>lastsave := int_of_time (clock w (n + 2)),
       tosave := False, toclose := [(''invalid-lock'', True)]\<rparr>))) wopisrc
     = Some (f\<lparr>lastsave := int_of_time (clock w (n + 2)), tosave := False,
                      toclose := [(''invalid-lock'', True)]\<rparr>)"
    using reg by (simp add: commit_def op update_conv')
  moreover have "plugin_saves (fst (cycle_doc w wopisrc (s, f))) = plugin_saves s"
    using cycle_doc_after_savedirty_None[OF sd] c by simp
  moreover have "relocks (fst (cycle_doc w wopisrc (s, f))) \<le> relocks s + 1"
    using cycle_doc_relocks[of w wopisrc "(s, f)"] by simp
  ultimately show ?thesis using sd c by simp
qed


theorem savedirty_invalid_lock_relock_once_witness:
  "map_of (openfiles (sample_state True)) ''W'' = Some (sample_file True)
   \<and> tosave (sample_file True)
   \<and> intersection (toclose (sample_file True)) = Inr True
   \<and> (\<exists>s' f'. savedirty (sample_world (Inl (InvalidLock ''404'')) (Inl (InvalidLock ''gone'')) (Inr (''{}'', 200)))
              ''W'' (sample_state True, sample_file True) = ((s', f'), Inr None)
          \<and> map_of (saveresponses s') ''W'' = Some (Response ''{\"message\": \"gone\"}'' 500)
          \<and> tosave f' = False
          \<and> toclose f' = [(''invalid-lock'', True)]
          \<and> relocks s' = 1 \<and> plugin_saves s' = 0)"
proof -
  let ?w = "sample_world (Inl (InvalidLock ''404'')) (Inl (InvalidLock ''gone'')) (Inr (''{}'', 200))"
  have reg: "map_of (openfiles (sample_state True)) ''W'' = Some (sample_file True)"
    by (simp add: sample_defs)
  have ts: "tosave (sample_file True)" by (simp add: sample_defs)
  have i: "intersection (toclose (sample_file True)) = Inr True"
    by (simp add: sample_defs intersection_def reduce_def)
  have n: "now (sample_state True) = now (sample_state True) + (if True then 0 else 1)" by simp
  have gl: "getlock ?w (now (sample_state True)) ''W'' (acctok (sample_file True)) = Inl (InvalidLock ''404'')"
    by (simp add: sample_defs)
  have rl: "relock ?w (now (sample_state True) + 1) ''W'' (acctok (sample_file True))
              (docid (sample_file True)) True = Inl (InvalidLock ''gone'')"
    by (simp add: sample_defs)
  have c: "relocks (sample_state True) = 0" "plugin_saves (sample_state True) = 0"
    "jsonify ?w ''gone'' = ''{\"message\": \"gone\"}''"
    by (simp_all add: sample_defs relocks_def plugin_saves_def)
  from savedirty_invalid_lock_relock_once[OF reg ts i _ n gl rl] c reg ts i
  show ?thesis by auto
qed

subsection \<open>What the map of responses holds\<close>

text \<open>
  A plugin's \<open>savetostorage\<close> can raise: the adapter for CodiMD lets the
  \<open>ConnectionError\<close> of an attachment fetch through.
\<close>

lemma findall_sample:
  "upload_re_findall ''see ![](/uploads/upload_0123456789abcdef0123456789abcdef.png) and /uploads/upload_xyz.png''
     = [''/uploads/upload_0123456789abcdef0123456789abcdef.png'']"
  by code_simp

lemma decode_sample:
  "decode ''see ![](/uploads/upload_0123456789abcdef0123456789abcdef.png) and /uploads/upload_xyz.png''
   = Inr ''see ![](/uploads/upload_0123456789abcdef0123456789abcdef.png) and /uploads/upload_xyz.png''"
  by code_simp

lemma savetostorage_attachment_fetch_raises:
  "savetostorage
     ((sample_appworld (200, [])
        (200, ''see ![](/uploads/upload_0123456789abcdef0123456789abcdef.png) and /uploads/upload_xyz.png'')
        (200, []))\<lparr>get_attachment := (\<lambda>n a. Inl ConnectionError)\<rparr>)
     [] ''W'' ''tok'' True (sample_lock [(''tok'', True)])
   = ([GetDownload ''/doc1'', GetAttachment ''/uploads/upload_0123456789abcdef0123456789abcdef.png''],
      Inl ConnectionError)"
  by (simp add: savetostorage_def fetchfromcodimd_def getattachments_def findall_sample decode_sample
      sample_appworld_def sample_lock_def Let_def)

text \<open>
  Claim C4 (fails on the code). The record of \<open>W\<close> is due for a save, \<open>getlock\<close> raises
  \<open>InvalidLock\<close>, \<open>relock\<close> succeeds with a lock, and the plugin's \<open>savetostorage\<close>
  raises (here \<open>ConnectionError\<close>, which \<open>_getattachments\<close> does not catch). The chained assignment of line 384 has stored the lock itself in the map of
  responses; nothing overwrites it, the handler of the round catches the exception, and
  the next \<open>/save\<close> for \<open>W\<close> returns the lock as its response. The value is not a pair of
  a body and a status.
\<close>

theorem savedirty_stores_lock_as_response:
  "map_of (saveresponses (fst (cycle_doc
       (sample_world (Inl (InvalidLock ''404'')) (Inr (sample_lock [(''tok'', True)])) (Inl ConnectionError))
       ''W'' (sample_state True, sample_file True)))) ''W''
     = Some (LockValue (sample_lock [(''tok'', True)]))
   \<and> snd (cycle_doc
       (sample_world (Inl (InvalidLock ''404'')) (Inr (sample_lock [(''tok'', True)])) (Inl ConnectionError))
       ''W'' (sample_state True, sample_file True)) = Some ConnectionError
   \<and> snd (appsave
       (sample_world (Inl (InvalidLock ''404'')) (Inr (sample_lock [(''tok'', True)])) (Inl ConnectionError))
       (fst (cycle_doc
         (sample_world (Inl (InvalidLock ''404'')) (Inr (sample_lock [(''tok'', True)])) (Inl ConnectionError))
         ''W'' (sample_state True, sample_file True)))
       (Some ''W?t=tok'') (Some ''false'') None)
     = Inr (LockValue (sample_lock [(''tok'', True)]))"
  by (simp add: eval_defs sample_defs)

subsection \<open>The close flags under /save\<close>


lemma map_of_update_other: "k' \<noteq> k \<Longrightarrow> map_of (AList.update k v al) k' = map_of al k'"
  by (simp add: update_conv')

lemma appsave_step:
  assumes "map_of (openfiles s) x = Some f"
  shows "\<exists>f'. map_of (openfiles (fst (appsave w s m c i))) x = Some f'
          \<and> (\<forall>k. spares x k (m, c, i) \<and> map_of (toclose f) k = Some True
                 \<longrightarrow> map_of (toclose f') k = Some True)"
proof (cases m)
  case None
  with assms show ?thesis by (simp add: appsave_def)
next
  case (Some meta)
  show ?thesis
  proof (cases "index_of ''?t='' meta")
    case None
    with Some assms show ?thesis by (simp add: appsave_def)
  next
    case (Some j)
    show ?thesis
    proof (cases "take j meta = x")
      case True
      with assms Some \<open>m = Some meta\<close> show ?thesis
        by (auto simp: appsave_def appsave_donotify_def appsave_enqueue_def appsave_respond_def
            Let_def read_clock_def emit_def clear_saveresponse_def update_conv' spares_def
            split: option.splits)
    next
      case False
      with assms Some \<open>m = Some meta\<close> show ?thesis
        by (auto simp: appsave_def appsave_donotify_def appsave_enqueue_def appsave_respond_def
            Let_def read_clock_def emit_def clear_saveresponse_def update_conv' spares_def
            split: option.splits)
    qed
  qed
qed

text \<open>
  Claim C2, as amended. \<open>/save\<close> assigns the close flag of the request to the entry of the
  request's short token. So an entry that is true stays true under every sequence of
  \<open>/save\<close> requests in which each request for the same document and the same short token
  has \<open>close=true\<close> (requests for other documents, of other short tokens, and malformed
  ones are free); the record is still there after them.
\<close>

theorem close_persists_under_sparing_saves:
  assumes "map_of (openfiles s) wopisrc = Some f"
    and "map_of (toclose f) k = Some True"
    and "list_all (spares wopisrc k) reqs"
  shows "\<exists>f'. map_of (openfiles (appsave_all w s reqs)) wopisrc = Some f'
              \<and> map_of (toclose f') k = Some True"
  using assms
proof (induction reqs arbitrary: s f)
  case Nil
  then show ?case by simp
next
  case (Cons r reqs)
  from appsave_step[OF Cons.prems(1), of w "fst r" "fst (snd r)" "snd (snd r)"]
  obtain f1 where 1: "map_of (openfiles (fst (appsave w s (fst r) (fst (snd r)) (snd (snd r))))) wopisrc = Some f1"
    and 2: "spares wopisrc k r \<and> map_of (toclose f) k = Some True \<longrightarrow> map_of (toclose f1) k = Some True"
    by auto
  from 2 Cons.prems have 3: "map_of (toclose f1) k = Some True" by simp
  from Cons.IH[OF 1 3] Cons.prems(3) show ?case by simp
qed

text \<open>
  Claim C2 as stated fails: after \<open>/save\<close> with \<open>close=true\<close> the entry of the token is
  true, and a second \<open>/save\<close> of the same token with \<open>close=false\<close> sets it to false.
\<close>

theorem close_reset_by_later_save:
  "map_option toclose (map_of (openfiles (appsave_all (sample_world (Inl (InvalidLock ''404'')) (Inl (InvalidLock ''404'')) (Inr (''{}'', 200)))
       start_state [(Some ''W?t=tok'', Some ''true'', Some ''/doc1'')])) ''W'') = Some [(''tok'', True)]
   \<and> map_option toclose (map_of (openfiles (appsave_all (sample_world (Inl (InvalidLock ''404'')) (Inl (InvalidLock ''404'')) (Inr (''{}'', 200)))
       start_state [(Some ''W?t=tok'', Some ''true'', Some ''/doc1''), (Some ''W?t=tok'', Some ''false'', Some ''/doc1'')])) ''W'')
      = Some [(''tok'', False)]"
  by (simp add: eval_defs sample_defs)

theorem close_persists_under_sparing_saves_witness:
  "map_of (openfiles (sample_state True)) ''W'' = Some (sample_file True)
   \<and> map_of (toclose (sample_file True)) ''tok'' = Some True
   \<and> list_all (spares ''W'' ''tok'')
        [(Some ''W?t=other'', Some ''false'', None), (Some ''W?t=tok'', Some ''true'', None),
         (Some ''V?t=tok'', Some ''false'', None), (None, None, None)]
   \<and> (\<exists>f'. map_of (openfiles (appsave_all (sample_world (Inl (InvalidLock ''404'')) (Inl (InvalidLock ''404'')) (Inr (''{}'', 200)))
         (sample_state True)
         [(Some ''W?t=other'', Some ''false'', None), (Some ''W?t=tok'', Some ''true'', None),
          (Some ''V?t=tok'', Some ''false'', None), (None, None, None)])) ''W'' = Some f'
        \<and> map_of (toclose f') ''tok'' = Some True)"
proof -
  have 1: "map_of (openfiles (sample_state True)) ''W'' = Some (sample_file True)"
    by (simp add: sample_defs)
  have 2: "map_of (toclose (sample_file True)) ''tok'' = Some True"
    by (simp add: sample_defs)
  have 3: "list_all (spares ''W'' ''tok'')
        [(Some ''W?t=other'', Some ''false'', None), (Some ''W?t=tok'', Some ''true'', None),
         (Some ''V?t=tok'', Some ''false'', None), (None, None, None)]"
    by (simp add: spares_def shorttok_def last_chars_def)
  from close_persists_under_sparing_saves[OF 1 2 3] 1 2 3 show ?thesis by blast
qed

subsection \<open>The reductions on an empty map\<close>














subsection \<open>The registry invariant\<close>


lemma toclose_nonempty_files: "toclose_nonempty s = files_ok (openfiles s)"
  by (simp add: toclose_nonempty_def files_ok_def)

lemma files_ok_update: "files_ok al \<Longrightarrow> toclose f \<noteq> [] \<Longrightarrow> files_ok (AList.update k f al)"
  by (induction al) (auto simp: files_ok_def)

lemma files_ok_delete: "files_ok al \<Longrightarrow> files_ok (AList.delete k al)"
  by (induction al) (auto simp: files_ok_def)

lemma files_ok_lookup: "files_ok al \<Longrightarrow> map_of al k = Some f \<Longrightarrow> toclose f \<noteq> []"
  by (induction al) (auto simp: files_ok_def split: if_splits)

lemma update_not_Nil: "AList.update k v al \<noteq> []"
  by (cases al) auto

lemma files_simps [simp]:
  "openfiles (emit ev s) = openfiles s"
  "openfiles (set_saveresponse x r s) = openfiles s"
  "openfiles (clear_saveresponse x s) = openfiles s"
  "openfiles (snd (read_clock w s)) = openfiles s"
  by (simp_all add: emit_def set_saveresponse_def clear_saveresponse_def read_clock_def)

lemma files_ok_del_openfile:
  "del_openfile x s = Inr s' \<Longrightarrow> files_ok (openfiles s) \<Longrightarrow> files_ok (openfiles s')"
  by (auto simp: del_openfile_def files_ok_delete split: option.splits)

lemma getlock_ok: "locks_name_someone w \<Longrightarrow> getlock w n a b = Inr l \<Longrightarrow> lock_toclose l \<noteq> []"
  unfolding locks_name_someone_def
  by (metis (mono_tags, lifting) lock_result_ok_def sum.simps(6))

lemma relock_ok: "locks_name_someone w \<Longrightarrow> relock w n a b c d = Inr l \<Longrightarrow> lock_toclose l \<noteq> []"
  unfolding locks_name_someone_def
  by (metis (mono_tags, lifting) lock_result_ok_def sum.simps(6))

lemma refreshlock_ok: "locks_name_someone w \<Longrightarrow> refreshlock w n a b l0 c None = Inr l \<Longrightarrow> lock_toclose l \<noteq> []"
  unfolding locks_name_someone_def
  by (metis (mono_tags, lifting) lock_result_ok_def sum.simps(6))

lemma plugin_load_ok: "locks_name_someone w \<Longrightarrow> plugin_loadfromstorage w n p m a b c = Inr l \<Longrightarrow> lock_toclose l \<noteq> []"
  unfolding locks_name_someone_def
  by (metis (mono_tags, lifting) lock_result_ok_def sum.simps(6))

lemma savedirty_due_files [simp]: "openfiles (fst (savedirty_due w s f)) = openfiles s"
  by (auto simp: savedirty_due_def split_beta split: sum.splits)

lemma savedirty_dispatch_ok:
  "phase_ok sf \<Longrightarrow> lock_toclose l \<noteq> [] \<Longrightarrow>
     phase_ok (fst (savedirty_dispatch w x sf l)) \<and> lock_opt_ok (snd (savedirty_dispatch w x sf l))"
  by (auto simp: savedirty_dispatch_def Let_def split_beta phase_ok_def lock_opt_ok_def
           split: sum.splits option.splits)

lemma savedirty_relock_ok:
  assumes "locks_name_someone w" "phase_ok sf"
  shows "phase_ok (fst (savedirty_relock w x sf)) \<and> lock_opt_ok (snd (savedirty_relock w x sf))"
proof (cases "intersection (toclose (snd sf))")
  case (Inl e)
  with assms show ?thesis by (simp add: savedirty_relock_def lock_opt_ok_def Let_def phase_ok_def)
next
  case (Inr isclose)
  show ?thesis
  proof (cases "relock w (now (fst sf)) x (acctok (snd sf)) (docid (snd sf)) isclose")
    case (Inl e)
    with Inr assms show ?thesis
      by (simp add: savedirty_relock_def lock_opt_ok_def Let_def phase_ok_def split_beta)
  next
    case r: (Inr l)
    from relock_ok[OF assms(1) r] have l: "lock_toclose l \<noteq> []" .
    have "phase_ok (set_saveresponse x (LockValue l)
            (emit (Relock x (acctok (snd sf)) (docid (snd sf)) isclose) (fst sf)), snd sf)"
      using assms(2) by (simp add: phase_ok_def)
    from savedirty_dispatch_ok[OF this l] Inr r show ?thesis
      by (simp add: savedirty_relock_def Let_def)
  qed
qed

lemma savedirty_ok:
  assumes "locks_name_someone w" "phase_ok sf"
  shows "phase_ok (fst (savedirty w x sf)) \<and> lock_opt_ok (snd (savedirty w x sf))"
proof (cases "savedirty_due w (fst sf) (snd sf)")
  case (Pair s1 r)
  have f1: "openfiles s1 = openfiles (fst sf)"
    using savedirty_due_files[of w "fst sf" "snd sf"] Pair by simp
  then have p1: "phase_ok (emit ev s1, snd sf)" for ev
    using assms(2) by (simp add: phase_ok_def)
  have p0: "phase_ok (s1, snd sf)"
    using assms(2) f1 by (simp add: phase_ok_def)
  show ?thesis
  proof (cases r)
    case (Inl e)
    with Pair p0 show ?thesis by (simp add: savedirty_def Let_def lock_opt_ok_def)
  next
    case (Inr due)
    show ?thesis
    proof (cases due)
      case False
      with Pair Inr p0 show ?thesis by (simp add: savedirty_def Let_def lock_opt_ok_def)
    next
      case True
      show ?thesis
      proof (cases "getlock w (now s1) x (acctok (snd sf))")
        case g: (Inl e)
        with Pair Inr True p1 savedirty_relock_ok[OF assms(1) p1] show ?thesis
          by (simp add: savedirty_def Let_def lock_opt_ok_def)
      next
        case g: (Inr l)
        from getlock_ok[OF assms(1) g] savedirty_dispatch_ok[OF p1] Pair Inr True g
        show ?thesis by (simp add: savedirty_def Let_def)
      qed
    qed
  qed
qed

lemma closewhenidle_ok:
  assumes "locks_name_someone w" "phase_ok sf" "lock_opt_ok (Inr l0)"
  shows "phase_ok (fst (closewhenidle w x sf l0)) \<and> lock_opt_ok (snd (closewhenidle w x sf l0))"
  using assms
  by (auto simp: closewhenidle_def Let_def split_beta phase_ok_def lock_opt_ok_def
           split: option.splits sum.splits
           dest: getlock_ok files_ok_del_openfile)

lemma reconcile_not_Nil: "lt \<noteq> [] \<Longrightarrow> reconcile lt mine \<noteq> []"
  by (simp add: reconcile_def)

lemma cleanup_unlock_ok:
  "phase_ok sf \<Longrightarrow> phase_ok (fst (cleanup_unlock w x sf l))"
  by (auto simp: cleanup_unlock_def Let_def split_beta phase_ok_def
           split: sum.splits dest: files_ok_del_openfile)

lemma cleanup_nolock_ok:
  "phase_ok sf \<Longrightarrow> phase_ok (fst (cleanup_nolock w x sf))"
  by (auto simp: cleanup_nolock_def Let_def split_beta phase_ok_def
           split: sum.splits dest: files_ok_del_openfile)

lemma cleanup_reconcile_ok:
  assumes "phase_ok sf" "lock_toclose l \<noteq> []"
  shows "phase_ok (fst (cleanup_reconcile w x sf l))"
proof -
  have p: "phase_ok (fst sf, (snd sf)\<lparr>toclose := reconcile (lock_toclose l) (toclose (snd sf))\<rparr>)"
    using assms by (simp add: phase_ok_def reconcile_not_Nil)
  show ?thesis
    using p cleanup_unlock_ok[OF p, of w x l]
    by (auto simp: cleanup_reconcile_def Let_def split: sum.splits) (auto simp: phase_ok_def)
qed

lemma cleanup_ok:
  assumes "locks_name_someone w" "phase_ok sf" "lock_opt_ok (Inr l0)"
  shows "phase_ok (fst (cleanup w x sf l0))"
proof -
  have e: "phase_ok (emit ev (fst sf), snd sf)" for ev
    using assms(2) by (simp add: phase_ok_def)
  have s: "phase_ok (fst sf, snd sf)" using assms(2) by simp
  show ?thesis
    using assms s e cleanup_reconcile_ok[OF e] cleanup_reconcile_ok[OF s] cleanup_nolock_ok[OF e]
    by (auto simp: cleanup_def Let_def lock_opt_ok_def split: sum.splits option.splits
             dest: getlock_ok)
qed

lemma commit_ok: "phase_ok sf \<Longrightarrow> toclose_nonempty (commit x sf)"
  by (auto simp: commit_def toclose_nonempty_files phase_ok_def files_ok_update split: option.splits)

lemma cycle_doc_ok:
  assumes "locks_name_someone w" "phase_ok sf"
  shows "toclose_nonempty (fst (cycle_doc w x sf))"
proof -
  obtain sf1 r1 where 1: "savedirty w x sf = (sf1, r1)" by (cases "savedirty w x sf")
  from savedirty_ok[OF assms, of x] 1 have p1: "phase_ok sf1" and l1: "lock_opt_ok r1" by simp_all
  show ?thesis
  proof (cases r1)
    case (Inl e)
    with 1 p1 show ?thesis by (simp add: cycle_doc_def commit_ok)
  next
    case (Inr wl1)
    obtain sf2 r2 where 2: "closewhenidle w x sf1 wl1 = (sf2, r2)" by (cases "closewhenidle w x sf1 wl1")
    from closewhenidle_ok[OF assms(1) p1, of wl1 x] l1 Inr 2
    have p2: "phase_ok sf2" and l2: "lock_opt_ok r2" by simp_all
    show ?thesis
    proof (cases r2)
      case (Inl e)
      with 1 2 \<open>r1 = Inr wl1\<close> p2 show ?thesis by (simp add: cycle_doc_def commit_ok)
    next
      case r2: (Inr wl2)
      obtain sf3 r3 where 3: "cleanup w x sf2 wl2 = (sf3, r3)" by (cases "cleanup w x sf2 wl2")
      from cleanup_ok[OF assms(1) p2, of wl2 x] l2 r2 3 have p3: "phase_ok sf3" by simp
      with 1 2 3 \<open>r1 = Inr wl1\<close> r2 show ?thesis
        by (cases r3) (simp_all add: cycle_doc_def commit_ok)
    qed
  qed
qed


lemma save_round_items_ok:
  assumes "locks_name_someone w"
  shows "toclose_nonempty s' \<Longrightarrow> files_ok items \<Longrightarrow>
         toclose_nonempty (foldl (\<lambda>s'' item. fst (cycle_doc w (fst item) (s'', snd item))) s' items)"
proof (induction items arbitrary: s')
  case Nil
  then show ?case by simp
next
  case (Cons item items)
  from Cons.prems have p: "phase_ok (s', snd item)"
    by (simp add: phase_ok_def toclose_nonempty_files files_ok_def)
  from Cons.prems have r: "files_ok items" by (simp add: files_ok_def)
  from Cons.IH[OF cycle_doc_ok[OF assms p, of "fst item"] r] show ?case by simp
qed

lemma save_round_ok:
  "locks_name_someone w \<Longrightarrow> toclose_nonempty s \<Longrightarrow> toclose_nonempty (save_round w s)"
  unfolding save_round_def
  by (rule save_round_items_ok) (simp_all add: toclose_nonempty_files)

lemma appsave_ok:
  assumes "toclose_nonempty s"
  shows "toclose_nonempty (fst (appsave w s m c i))"
proof -
  have enq: "files_ok (openfiles (appsave_enqueue w s' x tok b d))" if "files_ok (openfiles s')"
    for s' x tok b d
    using that
    by (auto simp: appsave_enqueue_def Let_def split_beta update_not_Nil
             intro!: files_ok_update split: option.splits)
  have dn: "openfiles (snd (appsave_donotify w s x b)) = openfiles s" for x b
    by (auto simp: appsave_donotify_def Let_def split_beta split: option.splits)
  have rs: "openfiles (fst (appsave_respond s' x)) = openfiles s'" for s' x
    by (auto simp: appsave_respond_def split: option.splits)
  show ?thesis
    using assms enq[of "snd (appsave_donotify w s x b)" for x b]
    by (auto simp: appsave_def Let_def split_beta toclose_nonempty_files rs dn
             split: option.splits)
qed

lemma appopen_fetch_ok:
  assumes "locks_name_someone w"
  shows "openfiles (fst (appopen_fetch w s app md x tok r)) = openfiles s
         \<and> (\<forall>v. snd (appopen_fetch w s app md x tok r) = Inr v \<longrightarrow> lock_toclose (snd v) \<noteq> [])"
  using assms
  by (auto simp: appopen_fetch_def Let_def split: sum.splits dest: plugin_load_ok)

lemma appopen_lock_ok:
  assumes "locks_name_someone w"
  shows "openfiles (fst (appopen_lock w s app md x tok)) = openfiles s
         \<and> (\<forall>v. snd (appopen_lock w s app md x tok) = Inr v \<longrightarrow> lock_toclose (snd v) \<noteq> [])"
proof -
  have a: "openfiles (fst (appopen_fetch w (emit ev s') app md x tok r)) = openfiles s'" for ev s' r
    using appopen_fetch_ok[OF assms, of "emit ev s'" app md x tok r] by simp
  have b: "snd (appopen_fetch w s' app md x tok r) = Inr v \<Longrightarrow> lock_toclose (snd v) \<noteq> []" for s' r v
    using appopen_fetch_ok[OF assms, of s' app md x tok r] by simp
  show ?thesis
    using assms
    by (auto simp: appopen_lock_def Let_def a split: sum.splits if_splits
             dest: refreshlock_ok b)
qed

lemma appopen_track_ok:
  "files_ok (openfiles s) \<Longrightarrow> lock_toclose l \<noteq> [] \<Longrightarrow> files_ok (openfiles (appopen_track w s x tok l))"
  by (auto simp: appopen_track_def Let_def split_beta intro!: files_ok_update split: option.splits)

lemma appopen_load_ok:
  assumes "locks_name_someone w" "files_ok (openfiles s)"
  shows "files_ok (openfiles (fst (appopen_load w s app md x tok)))"
proof (cases "UserCanWrite md")
  case False
  with assms show ?thesis
    by (auto simp: appopen_load_def Let_def split: sum.splits)
next
  case True
  obtain s1 r where 1: "appopen_lock w s app md x tok = (s1, r)" by (cases "appopen_lock w s app md x tok")
  from appopen_lock_ok[OF assms(1), of s app md x tok] 1
  have f: "openfiles s1 = openfiles s" and l: "\<And>v. r = Inr v \<Longrightarrow> lock_toclose (snd v) \<noteq> []"
    by simp_all
  show ?thesis
    using True 1 f l assms(2) appopen_track_ok[of s1 _ w x tok]
    by (cases r) (simp_all add: appopen_load_def)
qed

lemma appopen_ok:
  assumes "locks_name_someone w" "toclose_nonempty s"
  shows "toclose_nonempty (fst (appopen w s a b p))"
proof -
  have "files_ok (openfiles (fst (appopen_load w (emit ev s) app md x tok)))" for ev app md x tok
    using appopen_load_ok[OF assms(1), of "emit ev s" app md x tok] assms(2)
    by (simp add: toclose_nonempty_files)
  then show ?thesis
    using assms(2)
    by (auto simp: appopen_def Let_def toclose_nonempty_files split_beta
             split: option.splits sum.splits prod.splits)
qed

text \<open>
  Claim C7, as amended. Provided every lock that the WOPI client or a plugin hands to the
  bridge names at least one participant, every record of the registry has a non-empty
  \<open>toclose\<close> in every state that the bridge reaches by \<open>/open\<close>, \<open>/save\<close> and the cycles of
  the save thread (its three phases, under the handler of the round).
\<close>

theorem toclose_nonempty_when_locks_name_someone:
  assumes "locks_name_someone w" and "reachable w s"
  shows "toclose_nonempty s"
  using assms(2)
proof (induction rule: reachable.induct)
  case (start s)
  then show ?case by (simp add: toclose_nonempty_def)
next
  case (by_open s wopisrc_arg token_arg platform)
  then show ?case by (simp add: appopen_ok[OF assms(1)])
next
  case (by_save s metadata close_arg id_arg)
  then show ?case by (simp add: appsave_ok)
next
  case (by_cycle s wopisrc f)
  then have "phase_ok (s, f)"
    by (auto simp: phase_ok_def toclose_nonempty_files dest: files_ok_lookup)
  from cycle_doc_ok[OF assms(1) this] show ?case .
next
  case (by_round s)
  then show ?case by (simp add: save_round_ok[OF assms(1)])
qed


text \<open>
  Claim C7 as stated fails: \<open>cleanup\<close> takes the keys of the reconciled map from the lock.
  After a \<open>/save\<close> with \<open>close=true\<close>, a cycle that reads a lock with an empty \<open>toclose\<close>
  saves, then reconciles the record's \<open>toclose\<close> to the empty map; \<open>_intersection\<close> raises,
  the handler catches, and the record stays in the registry with an empty \<open>toclose\<close>.
\<close>

theorem empty_toclose_reachable:
  "reachable empty_lock_world
     (fst (cycle_doc empty_lock_world ''W''
        (appsave_all empty_lock_world start_state [close_request], saved_file)))
   \<and> \<not> toclose_nonempty
     (fst (cycle_doc empty_lock_world ''W''
        (appsave_all empty_lock_world start_state [close_request], saved_file)))"
proof -
  have r0: "reachable empty_lock_world start_state"
    by (rule reachable.start) (simp_all add: start_state_def)
  have r1: "reachable empty_lock_world (appsave_all empty_lock_world start_state [close_request])"
    using reachable.by_save[OF r0, of "fst close_request" "fst (snd close_request)" "snd (snd close_request)"]
    by simp
  have m: "map_of (openfiles (appsave_all empty_lock_world start_state [close_request])) ''W''
            = Some saved_file"
    by (simp add: eval_defs sample_defs)
  have bad: "\<not> toclose_nonempty
     (fst (cycle_doc empty_lock_world ''W''
        (appsave_all empty_lock_world start_state [close_request], saved_file)))"
    by (simp add: eval_defs sample_defs toclose_nonempty_def)
  from reachable.by_cycle[OF r1 m] bad show ?thesis by simp
qed

theorem toclose_nonempty_when_locks_name_someone_witness:
  "locks_name_someone named_lock_world
   \<and> reachable named_lock_world
     (fst (cycle_doc named_lock_world ''W''
        (appsave_all named_lock_world start_state [close_request], saved_file)))
   \<and> toclose_nonempty
     (fst (cycle_doc named_lock_world ''W''
        (appsave_all named_lock_world start_state [close_request], saved_file)))"
proof -
  have ok: "locks_name_someone named_lock_world"
    by (simp add: locks_name_someone_def lock_result_ok_def sample_defs update_not_Nil)
  have r0: "reachable named_lock_world start_state"
    by (rule reachable.start) (simp_all add: start_state_def)
  have r1: "reachable named_lock_world (appsave_all named_lock_world start_state [close_request])"
    using reachable.by_save[OF r0, of "fst close_request" "fst (snd close_request)" "snd (snd close_request)"]
    by simp
  have m: "map_of (openfiles (appsave_all named_lock_world start_state [close_request])) ''W''
            = Some saved_file"
    by (simp add: eval_defs sample_defs)
  from toclose_nonempty_when_locks_name_someone[OF ok reachable.by_cycle[OF r1 m]]
    ok reachable.by_cycle[OF r1 m]
  show ?thesis by simp
qed

subsection \<open>The configuration of the intervals\<close>

text \<open>
  Claim C1 (fails on the code). With \<open>APP_UNLOCK_INTERVAL\<close> set to 30, \<open>WB.init\<close> assigns
  30 to \<open>saveinterval\<close>, whatever \<open>APP_SAVE_INTERVAL\<close> says, and never assigns
  \<open>unlockinterval\<close>, which \<open>cleanup\<close> then fails to read. With neither variable set the
  intervals are 200 and 90.
\<close>

theorem unlock_interval_sets_saveinterval:
  "init_intervals [''APP_SAVE_INTERVAL'' \<mapsto> ''100'', ''APP_UNLOCK_INTERVAL'' \<mapsto> ''30'']
     = Inr \<lparr>saveinterval = 30, unlockinterval = None\<rparr>
   \<and> init_intervals [''APP_UNLOCK_INTERVAL'' \<mapsto> ''30''] = Inr \<lparr>saveinterval = 30, unlockinterval = None\<rparr>
   \<and> init_intervals Map.empty = Inr \<lparr>saveinterval = 200, unlockinterval = Some 90\<rparr>
   \<and> read_unlockinterval \<lparr>saveinterval = 30, unlockinterval = None\<rparr> = Inl (AttributeError ''unlockinterval'')"
  by (simp add: init_intervals_def py_int_def strip_def unsigned_val_def is_digit_def is_space_def
      read_unlockinterval_def)

subsection \<open>The CodiMD adapter\<close>

lemmas app_defs = sample_appworld_def bundle_md_def not_utf8_def sample_md_def sample_lock_def

lemma splitext_samples:
  "splitext ''img.png'' = (''img'', ''.png'')"
  "splitext ''doc.md'' = (''doc'', ''.md'')"
  "splitext ''notes.zmd'' = (''notes'', ''.zmd'')"
  "splitext ''notes.md'' = (''notes'', ''.md'')"
  by code_simp+

lemma collision_name_91: "collision_name ''img.png'' 91 = ''img_[.png''"
  by code_simp

lemma py_int_5: "py_int (Some ''5'') = Inr 5"
  by code_simp

text \<open>
  Claim C3 (fails on the code). The bundle holds \<open>doc.md\<close> and \<open>img.png\<close>, the app has an
  \<open>img.png\<close> of another size, and \<open>randint(65, 65+26)\<close> returns its upper bound 91. The new
  name is \<open>img_[.png\<close>: the character is not a letter. The rewrite of the references
  then raises \<open>TypeError\<close> (a \<open>bytes\<close> document, \<open>str\<close> arguments), so nothing is
  uploaded under the new name, no reference is rewritten and \<open>loadfromstorage\<close> fails.
\<close>

theorem collision_renames_outside_letters:
  "randint (sample_appworld (200, []) (200, []) (200, [])) 1 65 (65 + 26) = 91
   \<and> collision_name ''img.png'' 91 = ''img_[.png''
   \<and> unzipattachments (sample_appworld (200, []) (200, []) (200, [])) [] ''PK''
       = ([HeadUpload ''img.png'', RandInt 65 91], Inl TypeError)
   \<and> loadfromstorage (sample_appworld (200, ''PK'') (200, []) (200, [])) [] bundle_md ''W'' ''tok'' (Some ''doc1'')
       = ([WopiGetFile ''W'' ''tok'', HeadUpload ''img.png'', RandInt 65 91], Inl TypeError)"
  by (simp add: app_defs collision_name_91 splitext_samples unzipattachments_def
      same_upload_def py_int_5 replace_reference_def loadfromstorage_def Let_def)


text \<open>
  Claim C6. \<open>savetostorage\<close> is called with \<open>isclose\<close> true and a lock whose digest is not
  \<open>dirty\<close>; the app serves the document with status 200 and its SHA-1 digest equals the
  digest of the lock. Then the result is \<open>('{}', 202)\<close> and the only call to the outside is
  the download of the document: no PutFile, no refresh of the lock.
\<close>

theorem savetostorage_unchanged_on_close:
  assumes "get_download aw (length evs) (lock_docid wopilock) = Inr (200, mddoc)"
    and "lock_digest wopilock \<noteq> ''dirty''"
    and "sha1_hexdigest aw mddoc = lock_digest wopilock"
  shows "savetostorage aw evs wopisrc tok True wopilock
           = (evs @ [GetDownload (lock_docid wopilock)], Inr (''{}'', 202))"
  using assms by (simp add: savetostorage_def fetchfromcodimd_def Let_def)

theorem savetostorage_unchanged_on_close_witness:
  "get_download (sample_appworld (200, []) (200, ''# notes'') (200, [])) (length [])
       (lock_docid ((sample_lock [(''tok'', True)])\<lparr>lock_digest := ''sha1-of-# notes''\<rparr>)) = Inr (200, ''# notes'')
   \<and> lock_digest ((sample_lock [(''tok'', True)])\<lparr>lock_digest := ''sha1-of-# notes''\<rparr>) \<noteq> ''dirty''
   \<and> sha1_hexdigest (sample_appworld (200, []) (200, ''# notes'') (200, [])) ''# notes''
       = lock_digest ((sample_lock [(''tok'', True)])\<lparr>lock_digest := ''sha1-of-# notes''\<rparr>)
   \<and> savetostorage (sample_appworld (200, []) (200, ''# notes'') (200, [])) [] ''W'' ''tok'' True
        ((sample_lock [(''tok'', True)])\<lparr>lock_digest := ''sha1-of-# notes''\<rparr>)
       = ([GetDownload ''/doc1''], Inr (''{}'', 202))"
proof -
  let ?aw = "sample_appworld (200, []) (200, ''# notes'') (200, [])"
  let ?l = "(sample_lock [(''tok'', True)])\<lparr>lock_digest := ''sha1-of-# notes''\<rparr>"
  have 1: "get_download ?aw (length []) (lock_docid ?l) = Inr (200, ''# notes'')"
    by (simp add: app_defs)
  have 2: "lock_digest ?l \<noteq> ''dirty''" by simp
  have 3: "sha1_hexdigest ?aw ''# notes'' = lock_digest ?l" by (simp add: app_defs)
  have 4: "lock_docid ?l = ''/doc1''" by (simp add: app_defs)
  from savetostorage_unchanged_on_close[OF 1 2 3, of "''W''" "''tok''"] 1 2 3 4
  show ?thesis by simp
qed

lemma load_readwrite_not_utf8:
  "\<not> utf8_ok (map of_char mddoc) \<Longrightarrow> snd (load_readwrite aw evs mddoc d) \<noteq> Inr d'"
  by (auto simp: load_readwrite_def decode_def Let_def split: sum.splits)

lemma loadfromstorage_not_utf8_never_loads:
  assumes "wopi_getfile aw (length evs) wopisrc tok = Inr (200, content)"
    and "snd (splitext (BaseFileName md)) \<noteq> ''.zmd''"
    and "\<not> utf8_ok (map of_char content)" and "d \<noteq> []"
  shows "snd (loadfromstorage aw evs md wopisrc tok (Some d)) \<noteq> Inr l"
proof -
  obtain evs3 r where lr: "load_readwrite aw (evs @ [WopiGetFile wopisrc tok]) content d = (evs3, r)"
    by (cases "load_readwrite aw (evs @ [WopiGetFile wopisrc tok]) content d")
  with load_readwrite_not_utf8[OF assms(3), of aw "evs @ [WopiGetFile wopisrc tok]" d]
  have "\<And>d'. r \<noteq> Inr d'" by simp
  then obtain e where "r = Inl e" by (cases r) auto
  with assms lr show ?thesis by (simp add: loadfromstorage_def Let_def)
qed

lemma appopen_readonly_uncaught:
  assumes "request_getfileinfo w (now s) wopisrc tok = Inr (200, md)"
    and "\<not> UserCanWrite md"
    and "map_of BRIDGE_EXT_PLUGINS (drop 1 (snd (splitext (BaseFileName md)))) = Some app"
    and "plugin_loadfromstorage w (now s + 1) app md wopisrc tok None = Inl e"
    and "e \<noteq> AppFailure"
  shows "snd (appopen w s (Some wopisrc) (Some tok) platform) = Inl e"
  using assms
  by (simp add: appopen_def appopen_load_def Let_def now_def emit_def)

text \<open>
  Claim C9. \<open>loadfromstorage\<close> raises \<open>ValueError\<close> with the status code when GetFile does
  not answer 200. For a document that is not a bundle: with a \<open>docid\<close>, once the app has
  answered the reservation with 200 or 302, bytes that are not UTF-8 raise
  \<open>UnicodeDecodeError\<close> before the document is pushed (and whatever the app answers, such
  a document is never loaded); without a \<open>docid\<close>, once the app has
  accepted the new note, first bytes that are not UTF-8 raise it in \<open>_isslides\<close>. And
  \<open>/open\<close>, which catches \<open>AppFailure\<close> only, lets any other exception of the plugin's
  \<open>loadfromstorage\<close> through (here on the read-only path).
\<close>

theorem loadfromstorage_raises_other_than_AppFailure:
  "(wopi_getfile aw (length evs) wopisrc tok = Inr (status, content) \<and> status \<noteq> 200 \<longrightarrow>
      loadfromstorage aw evs md wopisrc tok did
        = (evs @ [WopiGetFile wopisrc tok], Inl (ValueError (IntArg (int status)))))
   \<and> (wopi_getfile aw (length evs) wopisrc tok = Inr (200, content)
        \<and> snd (splitext (BaseFileName md)) \<noteq> ''.zmd''
        \<and> \<not> utf8_ok (map of_char content)
        \<and> d \<noteq> [] \<and> head_note aw (length evs + 1) d = Inr (st, loc) \<and> (st = 200 \<or> st = 302) \<longrightarrow>
      loadfromstorage aw evs md wopisrc tok (Some d)
        = (evs @ [WopiGetFile wopisrc tok, HeadNote d], Inl UnicodeDecodeError))
   \<and> (wopi_getfile aw (length evs) wopisrc tok = Inr (200, content)
        \<and> snd (splitext (BaseFileName md)) \<noteq> ''.zmd''
        \<and> \<not> utf8_ok (map of_char content) \<and> d \<noteq> [] \<longrightarrow>
      (\<forall>l. snd (loadfromstorage aw evs md wopisrc tok (Some d)) \<noteq> Inr l))
   \<and> (wopi_getfile aw (length evs) wopisrc tok = Inr (200, content)
        \<and> snd (splitext (BaseFileName md)) \<noteq> ''.zmd''
        \<and> \<not> utf8_ok (map of_char (take 9 content))
        \<and> post_new aw (length evs + 1) content = Inr (302, loc') \<longrightarrow>
      loadfromstorage aw evs md wopisrc tok None
        = (evs @ [WopiGetFile wopisrc tok, PostNew content], Inl UnicodeDecodeError))
   \<and> (request_getfileinfo w (now s) wopisrc tok = Inr (200, md') \<and> \<not> UserCanWrite md'
        \<and> map_of BRIDGE_EXT_PLUGINS (drop 1 (snd (splitext (BaseFileName md')))) = Some app
        \<and> plugin_loadfromstorage w (now s + 1) app md' wopisrc tok None = Inl e
        \<and> e \<noteq> AppFailure \<longrightarrow>
      snd (appopen w s (Some wopisrc) (Some tok) platform) = Inl e)"
proof -
  have a: "loadfromstorage aw evs md wopisrc tok did
        = (evs @ [WopiGetFile wopisrc tok], Inl (ValueError (IntArg (int status))))"
    if "wopi_getfile aw (length evs) wopisrc tok = Inr (status, content)" "status \<noteq> 200"
    using that by (simp add: loadfromstorage_def Let_def)
  have b: "loadfromstorage aw evs md wopisrc tok (Some d)
        = (evs @ [WopiGetFile wopisrc tok, HeadNote d], Inl UnicodeDecodeError)"
    if "wopi_getfile aw (length evs) wopisrc tok = Inr (200, content)"
      "snd (splitext (BaseFileName md)) \<noteq> ''.zmd''" "\<not> utf8_ok (map of_char content)"
      "d \<noteq> []" "head_note aw (length evs + 1) d = Inr (st, loc)" "st = 200 \<or> st = 302"
    using that by (auto simp: loadfromstorage_def load_readwrite_def decode_def Let_def)
  have c: "loadfromstorage aw evs md wopisrc tok None
        = (evs @ [WopiGetFile wopisrc tok, PostNew content], Inl UnicodeDecodeError)"
    if "wopi_getfile aw (length evs) wopisrc tok = Inr (200, content)"
      "snd (splitext (BaseFileName md)) \<noteq> ''.zmd''" "\<not> utf8_ok (map of_char (take 9 content))"
      "post_new aw (length evs + 1) content = Inr (302, loc')"
    using that by (simp add: loadfromstorage_def load_readonly_def isslides_def decode_def Let_def take_map)
  have n: "\<forall>l. snd (loadfromstorage aw evs md wopisrc tok (Some d)) \<noteq> Inr l"
    if "wopi_getfile aw (length evs) wopisrc tok = Inr (200, content)"
      "snd (splitext (BaseFileName md)) \<noteq> ''.zmd''" "\<not> utf8_ok (map of_char content)" "d \<noteq> []"
    using loadfromstorage_not_utf8_never_loads[OF that] by blast
  show ?thesis
    using a b c n appopen_readonly_uncaught[of w s wopisrc tok md' app e platform] by blast
qed


theorem loadfromstorage_raises_other_than_AppFailure_witness:
  "loadfromstorage (sample_appworld (404, []) (200, []) (200, [])) [] sample_md ''W'' ''tok'' (Some ''doc1'')
     = ([WopiGetFile ''W'' ''tok''], Inl (ValueError (IntArg 404)))
   \<and> \<not> utf8_ok (map of_char not_utf8)
   \<and> loadfromstorage (sample_appworld (200, not_utf8) (200, []) (200, [])) [] sample_md ''W'' ''tok'' (Some ''doc1'')
     = ([WopiGetFile ''W'' ''tok'', HeadNote ''doc1''], Inl UnicodeDecodeError)
   \<and> loadfromstorage (sample_appworld (200, not_utf8) (200, []) (200, [])) [] sample_md ''W'' ''tok'' None
     = ([WopiGetFile ''W'' ''tok'', PostNew not_utf8], Inl UnicodeDecodeError)
   \<and> snd (appopen failing_load_world start_state (Some ''W'') (Some ''tok'') None)
     = Inl (ValueError (IntArg 404))"
proof -
  let ?aw1 = "sample_appworld (404, []) (200, []) (200, [])"
  let ?aw2 = "sample_appworld (200, not_utf8) (200, []) (200, [])"
  let ?md = "sample_md\<lparr>UserCanWrite := False\<rparr>"
  have g1: "wopi_getfile ?aw1 (length []) ''W'' ''tok'' = Inr (404, [])" "(404::nat) \<noteq> 200"
    by (simp_all add: app_defs)
  have g2: "wopi_getfile ?aw2 (length []) ''W'' ''tok'' = Inr (200, not_utf8)"
    by (simp add: app_defs)
  have ext: "snd (splitext (BaseFileName sample_md)) \<noteq> ''.zmd''"
    by (simp add: sample_md_def splitext_samples)
  have bad: "\<not> utf8_ok (map of_char not_utf8)" "\<not> utf8_ok (map of_char (take 9 not_utf8))"
    by (simp_all add: not_utf8_def)
  have hn: "head_note ?aw2 (length [] + 1) ''doc1'' = Inr (200, [])" "''doc1'' \<noteq> []"
    by (simp_all add: app_defs)
  have pn: "post_new ?aw2 (length [] + 1) not_utf8 = Inr (302, ''/newnote'')"
    by (simp add: app_defs)
  have fi: "request_getfileinfo failing_load_world (now start_state) ''W'' ''tok'' = Inr (200, ?md)"
    "\<not> UserCanWrite ?md"
    by (simp_all add: failing_load_world_def named_lock_world_def sample_world_def)
  have pl: "map_of BRIDGE_EXT_PLUGINS (drop 1 (snd (splitext (BaseFileName ?md)))) = Some ''codimd''"
    by (simp add: sample_md_def splitext_samples BRIDGE_EXT_PLUGINS_def)
  have ld: "plugin_loadfromstorage failing_load_world (now start_state + 1) ''codimd'' ?md ''W'' ''tok'' None
              = Inl (ValueError (IntArg 404))" "ValueError (IntArg 404) \<noteq> AppFailure"
    by (simp_all add: failing_load_world_def named_lock_world_def sample_world_def)
  from loadfromstorage_raises_other_than_AppFailure
         [where aw = ?aw1 and evs = "[]" and wopisrc = "''W''" and tok = "''tok''" and status = 404
            and content = "[]" and md = sample_md and did = "Some ''doc1''"] g1
  have 1: "loadfromstorage ?aw1 [] sample_md ''W'' ''tok'' (Some ''doc1'')
     = ([WopiGetFile ''W'' ''tok''], Inl (ValueError (IntArg 404)))"
    by simp
  from loadfromstorage_raises_other_than_AppFailure
         [where aw = ?aw2 and evs = "[]" and wopisrc = "''W''" and tok = "''tok''"
            and content = not_utf8 and md = sample_md and d = "''doc1''" and st = 200 and loc = "[]"
            and loc' = "''/newnote''" and w = failing_load_world and s = start_state and md' = ?md
            and app = "''codimd''" and e = "ValueError (IntArg 404)" and platform = None]
       g2 ext bad hn pn fi pl ld
  have 2: "loadfromstorage ?aw2 [] sample_md ''W'' ''tok'' (Some ''doc1'')
     = ([WopiGetFile ''W'' ''tok'', HeadNote ''doc1''], Inl UnicodeDecodeError)"
    and 3: "loadfromstorage ?aw2 [] sample_md ''W'' ''tok'' None
     = ([WopiGetFile ''W'' ''tok'', PostNew not_utf8], Inl UnicodeDecodeError)"
    and 4: "snd (appopen failing_load_world start_state (Some ''W'') (Some ''tok'') None)
     = Inl (ValueError (IntArg 404))"
    by simp_all
  from 1 2 3 4 bad(1) show ?thesis by simp
qed


end
